theory Spec2Isabelle
  imports Complex_Main "HOL-Library.Monad_Syntax"
begin

section \<open>GLSL values and primitive operations\<close>

text \<open>
  The fragment shader \<^verbatim>\<open>src/gl/mandelbrot.frag\<close> computes on \<^verbatim>\<open>highp float\<close>.
  The embedding idealises a float as a \<^typ>\<open>real\<close>: rounding is not modelled. What the
  embedding does keep is every place where a GLSL operation has no numeric result: a
  division whose divisor is zero and a logarithm of a non-positive number yield
  \<^term>\<open>None\<close>, and \<^term>\<open>None\<close> propagates to the end of the computation.
\<close>

type_synonym vec2 = "real \<times> real"
type_synonym vec3 = "real \<times> real \<times> real"
type_synonym vec4 = "real \<times> real \<times> real \<times> real"

definition fdiv :: "real \<Rightarrow> real \<Rightarrow> real option" where
  "fdiv a b = (if b = 0 then None else Some (a / b))"

definition glsl_log :: "real \<Rightarrow> real option" where
  "glsl_log x = (if x \<le> 0 then None else Some (ln x))"

definition fract :: "real \<Rightarrow> real" where
  "fract x = x - of_int \<lfloor>x\<rfloor>"

definition clamp :: "real \<Rightarrow> real \<Rightarrow> real \<Rightarrow> real" where
  "clamp x lo hi = min (max x lo) hi"

definition mix :: "real \<Rightarrow> real \<Rightarrow> real \<Rightarrow> real" where
  "mix a b t = a * (1 - t) + b * t"

definition vlength :: "vec2 \<Rightarrow> real" where
  "vlength z = sqrt (fst z * fst z + snd z * snd z)"

definition dot2 :: "vec2 \<Rightarrow> vec2 \<Rightarrow> real" where
  "dot2 a b = fst a * fst b + snd a * snd b"

text \<open>
  Two-argument \<^verbatim>\<open>atan(y, x)\<close>: the angle of the point \<open>(x, y)\<close> in \<open>(-\<pi>, \<pi>]\<close>. GLSL
  leaves \<^verbatim>\<open>atan(0, 0)\<close> undefined; the shader multiplies its cosine and sine by
  \<^verbatim>\<open>pow(0, power) = 0\<close>, so any finite angle gives the same \<open>z\<close>, and the model takes 0.
\<close>

definition atan2 :: "real \<Rightarrow> real \<Rightarrow> real" where
  "atan2 y x =
     (if 0 < x then arctan (y / x)
      else if x < 0 then (if 0 \<le> y then arctan (y / x) + pi else arctan (y / x) - pi)
      else if 0 < y then pi / 2
      else if y < 0 then - (pi / 2)
      else 0)"

section \<open>Uniforms\<close>

text \<open>
  The uniform block of the shader. \<^verbatim>\<open>u_palette\<close> is the sampler: a function from
  texture coordinates to an RGBA colour.
\<close>

record uniforms =
  u_center :: vec2
  u_scale :: real
  u_viewSize :: vec2
  u_tileOffset :: vec2
  u_maxIter :: int
  u_power :: real
  u_bailout :: real
  u_type :: int
  u_juliaC :: vec2
  u_palette :: "vec2 \<Rightarrow> vec4"
  u_paletteSize :: real
  u_paletteLength :: real
  u_paletteCycle :: real
  u_adjust :: vec4
  u_hue :: real
  u_edgeGlow :: real
  u_interiorSolid :: int
  u_scaleMode :: int

section \<open>Coordinate mapper\<close>

text \<open>
  \<^verbatim>\<open>pixelToComplex\<close>, lines 58-66 of the shader. The four divisions are checked
  divisions, in the order the source performs them.
\<close>

definition pixelToComplex :: "uniforms \<Rightarrow> vec2 \<Rightarrow> vec2 option" where
  "pixelToComplex u fragPx =
     (let px = (fst fragPx + fst (u_tileOffset u), snd fragPx + snd (u_tileOffset u)) in
      do {
        aspect \<leftarrow> fdiv (fst (u_viewSize u)) (max 1 (snd (u_viewSize u)));
        let width = u_scale u;
        height \<leftarrow> fdiv width aspect;
        qx \<leftarrow> fdiv (fst px) (fst (u_viewSize u));
        let x = (qx - 1 / 2) * width + fst (u_center u);
        qy \<leftarrow> fdiv (snd px) (snd (u_viewSize u));
        let y = (qy - 1 / 2) * height + snd (u_center u);
        Some (x, y)
      })"

section \<open>Escape-time evaluator\<close>

text \<open>
  The power step of lines 87-91 without the addition of \<open>c\<close>: \<open>z\<close> raised to \<open>power\<close>
  in polar form. \<^verbatim>\<open>pow(r, power)\<close> is \<^term>\<open>r powr pw\<close>, which is 0 at \<open>r = 0\<close>.
\<close>

definition cpow :: "real \<Rightarrow> vec2 \<Rightarrow> vec2" where
  "cpow pw z =
     (let r = vlength z;
          theta = atan2 (snd z) (fst z);
          rP = r powr pw;
          tP = theta * pw
      in (rP * cos tP, rP * sin tP))"

definition reflect :: "vec2 \<Rightarrow> vec2" where
  "reflect z = (\<bar>fst z\<bar>, \<bar>snd z\<bar>)"

text \<open>
  One pass of the loop body after the budget test, lines 84-91: the burning-ship
  reflection, the power step, the addition of \<open>c\<close>.
\<close>

definition step :: "int \<Rightarrow> real \<Rightarrow> vec2 \<Rightarrow> vec2 \<Rightarrow> vec2" where
  "step ty pw c z =
     (let z1 = (if ty = 2 then reflect z else z);
          w = cpow pw z1
      in (fst w + fst c, snd w + snd c))"

text \<open>
  The \<^verbatim>\<open>for\<close> loop of lines 81-93, with the loop variable \<open>i\<close> and \<open>z\<close> as state. It
  returns the values of \<open>i\<close> and \<open>z\<close> after the loop: the loop ends when the constant bound
  100000 is reached, when \<open>i \<ge> maxIter\<close>, or at the bailout test (where \<open>i\<close> is not
  incremented).
\<close>

function loop :: "int \<Rightarrow> int \<Rightarrow> vec2 \<Rightarrow> real \<Rightarrow> real \<Rightarrow> int \<Rightarrow> vec2 \<Rightarrow> int \<times> vec2" where
  "loop maxIter ty c pw bailout i z =
     (if \<not> i < 100000 then (i, z)
      else if i \<ge> maxIter then (i, z)
      else (let z' = step ty pw c z in
            if dot2 z' z' > bailout * bailout then (i, z')
            else loop maxIter ty c pw bailout (i + 1) z'))"
  by pat_completeness auto
termination
  by (relation "measure (\<lambda>(maxIter, ty, c, pw, bailout, i, z). nat (100000 - i))") auto

declare loop.simps [simp del]

text \<open>
  Lines 72-93: the choice of \<open>c\<close> and \<open>z\<close> by fractal type, the floors of \<open>power\<close> and
  \<open>bailout\<close>, and the loop from \<open>i = 0\<close>.
\<close>

definition iterate :: "uniforms \<Rightarrow> vec2 \<Rightarrow> int \<times> vec2" where
  "iterate u c0 =
     (let c = (if u_type u = 1 then u_juliaC u else c0);
          z = (if u_type u = 1 then c0 else (0, 0));
          pw = max 2 (u_power u);
          bailout = max 2 (u_bailout u)
      in loop (u_maxIter u) (u_type u) c pw bailout 0 z)"

text \<open>
  The smooth iteration count of lines 104-107, for the state \<open>(i, z)\<close> the loop left:
  the pair \<open>(nu, t)\<close>.
\<close>

definition smooth :: "uniforms \<Rightarrow> int \<Rightarrow> vec2 \<Rightarrow> (real \<times> real) option" where
  "smooth u i z =
     (let pw = max 2 (u_power u); r = vlength z in
      do {
        l1 \<leftarrow> glsl_log (max r (1 / 1000000));
        l2 \<leftarrow> glsl_log l1;
        lp \<leftarrow> glsl_log pw;
        nu \<leftarrow> fdiv l2 lp;
        Some (nu, of_int i + 1 - nu)
      })"

text \<open>
  What lines 95-108 leave for the colour path: the solid interior returns at once;
  every other pixel carries its \<open>t\<close> and \<open>nu\<close> on.
\<close>

datatype pixel_class = Interior | Shaded real real

definition escape_time :: "uniforms \<Rightarrow> vec2 \<Rightarrow> pixel_class option" where
  "escape_time u c0 =
     (case iterate u c0 of (i, z) \<Rightarrow>
        if i \<ge> u_maxIter u then
          (if u_interiorSolid u = 1 then Some Interior else Some (Shaded (of_int i) 0))
        else do { (nu, t) \<leftarrow> smooth u i z; Some (Shaded t nu) })"

text \<open>
  The evaluator's result as the specification names it. The shader has no flag of its
  own: a pixel counts as escaped exactly when the test \<open>i \<ge> maxIter\<close> of line 96 fails.
\<close>

record eval_result =
  escaped :: bool
  iterationCount :: int
  finalZ :: vec2

definition evaluate :: "uniforms \<Rightarrow> vec2 \<Rightarrow> eval_result" where
  "evaluate u c0 =
     (case iterate u c0 of (i, z) \<Rightarrow>
        \<lparr>escaped = (i < u_maxIter u), iterationCount = i, finalZ = z\<rparr>)"

section \<open>Colour mapper\<close>

text \<open>\<^verbatim>\<open>hsv2rgb\<close>, lines 25-29, with \<open>K = (1, 2/3, 1/3, 3)\<close> written out per channel.\<close>

definition hsv2rgb :: "vec3 \<Rightarrow> vec3" where
  "hsv2rgb c =
     (case c of (h, s, v) \<Rightarrow>
        let p = (\<lambda>k. \<bar>fract (h + k) * 6 - 3\<bar>) in
        (v * mix 1 (clamp (p 1 - 1) 0 1) s,
         v * mix 1 (clamp (p (2 / 3) - 1) 0 1) s,
         v * mix 1 (clamp (p (1 / 3) - 1) 0 1) s))"

text \<open>
  \<^verbatim>\<open>adjust_color\<close>, lines 31-56. The division of line 45 is a checked division: its
  divisor \<open>1 - |2 l - 1| + 1e-6\<close> can be zero when the lightness exceeds 1. The divisions
  of lines 48-50 stand under the test \<open>maxc \<noteq> minc\<close>.
\<close>

definition adjust_color :: "uniforms \<Rightarrow> vec3 \<Rightarrow> vec3 option" where
  "adjust_color u color =
     (case u_adjust u of (brightness, contrast, g, saturation) \<Rightarrow>
      case color of (r0, g0, b0) \<Rightarrow>
        let gamma = max (1 / 10) g;
            bc = (\<lambda>x. (x + brightness - 1 / 2) * (contrast + 1) + 1 / 2);
            gm = (\<lambda>x. (max x 0) powr (1 / gamma));
            cr = gm (bc r0); cg = gm (bc g0); cb = gm (bc b0);
            maxc = max (max cr cg) cb;
            minc = min (min cr cg) cb;
            l = (maxc + minc) * (1 / 2)
        in do {
          s \<leftarrow> fdiv (maxc - minc) (1 - \<bar>2 * l - 1\<bar> + 1 / 1000000);
          let h0 = (if maxc \<noteq> minc then
                      fract ((if maxc = cr then (cg - cb) / (maxc - minc)
                              else if maxc = cg then 2 + (cb - cr) / (maxc - minc)
                              else 4 + (cr - cg) / (maxc - minc)) / 6)
                    else 0);
          let h = fract (h0 + u_hue u / 360);
          case hsv2rgb (h, clamp (s * saturation) 0 1, l) of (r, g', b) \<Rightarrow>
            Some (clamp r 0 1, clamp g' 0 1, clamp b 0 1)
        })"

text \<open>
  Lines 110-122: the scale transform of \<open>t\<close>, the palette index, the palette lookup and
  the edge glow.
\<close>

definition palette_color :: "uniforms \<Rightarrow> real \<Rightarrow> real \<Rightarrow> vec3 option" where
  "palette_color u t nu =
     do {
       tt \<leftarrow> (if u_scaleMode u = 1 then glsl_log (1 + t)
              else if u_scaleMode u = 2 then Some (sqrt (max t 0))
              else Some t);
       let idx = fract (tt / max 1 (of_int (u_maxIter u)) * u_paletteLength u + u_paletteCycle u);
       case u_palette u (idx, 1 / 2) of (pr, pg, pb, pa) \<Rightarrow>
         let glow = exp (- 3 * \<bar>nu\<bar>);
             a = glow * u_edgeGlow u
         in Some (mix pr 1 a, mix pg 1 a, mix pb 1 a)
     }"

text \<open>Lines 124-125: the adjustment and the opaque alpha.\<close>

definition shade :: "uniforms \<Rightarrow> real \<Rightarrow> real \<Rightarrow> vec4 option" where
  "shade u t nu =
     do {
       color \<leftarrow> palette_color u t nu;
       adjusted \<leftarrow> adjust_color u color;
       case adjusted of (r, g, b) \<Rightarrow> Some (r, g, b, 1)
     }"

definition interior_color :: vec4 where
  "interior_color = (2 / 100, 1 / 100, 5 / 100, 1)"

text \<open>
  \<^verbatim>\<open>main\<close>, lines 68-126, for the fragment at window position \<open>fragCoord\<close>: the value
  written to \<^verbatim>\<open>fragColor\<close>, or \<^term>\<open>None\<close> when an operation on the way had no
  numeric result.
\<close>

definition main :: "uniforms \<Rightarrow> vec2 \<Rightarrow> vec4 option" where
  "main u fragCoord =
     do {
       c0 \<leftarrow> pixelToComplex u fragCoord;
       k \<leftarrow> escape_time u c0;
       case k of Interior \<Rightarrow> Some interior_color | Shaded t nu \<Rightarrow> shade u t nu
     }"

section \<open>Application state and the renderer's uniform assignment\<close>

text \<open>
  The part of \<^verbatim>\<open>AppState\<close> (\<^verbatim>\<open>src/state/types.ts\<close>) that the renderer reads. The
  fields for the user interface, history and bookmarks are left out: neither
  \<^verbatim>\<open>render\<close> nor \<^verbatim>\<open>exportTiled\<close> reads them. A field carries the name of the source
  behind a prefix for its record (\<^verbatim>\<open>view.cx\<close> is \<open>view_cx\<close>, \<^verbatim>\<open>palette.length\<close> is
  \<open>pal_length\<close>), since names such as \<open>length\<close> are taken; \<^verbatim>\<open>mapping.scaleMode\<close> is the
  only field of \<^verbatim>\<open>mapping\<close> that is read.
\<close>

datatype FractalType = Mandelbrot | Julia | BurningShip
datatype ScaleMode = ScaleLinear | ScaleLog | ScaleSqrt
datatype Interpolation = InterpLinear | InterpCosine | InterpPerceptual

record View =
  view_cx :: real
  view_cy :: real
  view_scale :: real

record PaletteConfig =
  pal_preset :: string
  pal_length :: real
  pal_cycle :: real
  pal_reverse :: bool
  pal_interpolation :: Interpolation
  pal_seed :: real

record Adjustments =
  adj_brightness :: real
  adj_contrast :: real
  adj_gamma :: real
  adj_saturation :: real
  adj_hue :: real
  adj_edgeGlow :: real

record RenderSettings =
  rs_iterations :: int
  rs_power :: real
  rs_bailout :: real
  rs_fractal :: FractalType
  rs_interiorSolid :: bool

record AppState =
  st_view :: View
  st_juliaC :: vec2
  st_palette :: PaletteConfig
  st_adjust :: Adjustments
  st_scaleMode :: ScaleMode
  st_render :: RenderSettings

text \<open>The defaults of \<^verbatim>\<open>src/state/useFractalState.ts\<close>.\<close>

definition defaults :: AppState where
  "defaults =
     \<lparr>st_view = \<lparr>view_cx = - (75 / 100), view_cy = 0, view_scale = 3\<rparr>,
      st_juliaC = (- (8 / 10), 156 / 1000),
      st_palette = \<lparr>pal_preset = ''electric-blue'', pal_length = 256, pal_cycle = 0,
                     pal_reverse = False, pal_interpolation = InterpCosine, pal_seed = 1\<rparr>,
      st_adjust = \<lparr>adj_brightness = 0, adj_contrast = 0, adj_gamma = 1, adj_saturation = 1,
                    adj_hue = 0, adj_edgeGlow = 2 / 10\<rparr>,
      st_scaleMode = ScaleLinear,
      st_render = \<lparr>rs_iterations = 200, rs_power = 2, rs_bailout = 4, rs_fractal = Mandelbrot,
                    rs_interiorSolid = True\<rparr>\<rparr>"

text \<open>
  The uniform assignments of \<^verbatim>\<open>exportTiled\<close> (lines 353-370 of the renderer; \<^verbatim>\<open>render\<close>
  makes the same ones at lines 286-302). The palette texture and its size are fields of
  the renderer object; the view size and the tile offset are what the caller passes.
  \<^verbatim>\<open>gl.uniform1i\<close> takes a 32-bit integer: the number it is given is reduced modulo
  \<open>2^32\<close> into the signed range (\<open>4294967301\<close> becomes \<open>5\<close>).
\<close>

definition to_int32 :: "int \<Rightarrow> int" where
  "to_int32 n = (n + 2147483648) mod 4294967296 - 2147483648"

definition type_code :: "FractalType \<Rightarrow> int" where
  "type_code f = (if f = Julia then 1 else if f = BurningShip then 2 else 0)"

definition set_uniforms :: "AppState \<Rightarrow> (vec2 \<Rightarrow> vec4) \<Rightarrow> real \<Rightarrow> vec2 \<Rightarrow> vec2 \<Rightarrow> uniforms" where
  "set_uniforms state tex paletteSize viewSize tileOffset =
     \<lparr>u_center = (view_cx (st_view state), view_cy (st_view state)),
      u_scale = view_scale (st_view state),
      u_viewSize = viewSize,
      u_tileOffset = tileOffset,
      u_maxIter = to_int32 (rs_iterations (st_render state)),
      u_power = rs_power (st_render state),
      u_bailout = rs_bailout (st_render state),
      u_type = type_code (rs_fractal (st_render state)),
      u_juliaC = st_juliaC state,
      u_palette = tex,
      u_paletteSize = paletteSize,
      u_paletteLength = max 1 (pal_length (st_palette state)),
      u_paletteCycle = pal_cycle (st_palette state),
      u_adjust = (adj_brightness (st_adjust state), adj_contrast (st_adjust state),
                  adj_gamma (st_adjust state), adj_saturation (st_adjust state)),
      u_hue = adj_hue (st_adjust state),
      u_edgeGlow = adj_edgeGlow (st_adjust state),
      u_interiorSolid = (if rs_interiorSolid (st_render state) then 1 else 0),
      u_scaleMode = (if st_scaleMode state = ScaleLinear then 0
                     else if st_scaleMode state = ScaleLog then 1 else 2)\<rparr>"

text \<open>
  Concrete inputs: a palette texture of one colour; the uniforms of a view of one pixel,
  whose centre \<open>(0.5, 0.5)\<close> maps to the centre of the view; the default state centred
  at a given point, with the gradient interior, and with a budget beyond the loop bound
  (centred at 0 with the solid interior, and with the gradient interior).
\<close>

definition white :: "vec2 \<Rightarrow> vec4" where
  "white uv = (1, 1, 1, 1)"

definition one_pixel :: "AppState \<Rightarrow> uniforms" where
  "one_pixel st = set_uniforms st white 256 (1, 1) (0, 0)"

definition centred :: "real \<Rightarrow> real \<Rightarrow> AppState" where
  "centred x y = defaults\<lparr>st_view := \<lparr>view_cx = x, view_cy = y, view_scale = 3\<rparr>\<rparr>"

definition gradient_state :: AppState where
  "gradient_state = defaults\<lparr>st_render := (st_render defaults)\<lparr>rs_interiorSolid := False\<rparr>\<rparr>"

definition deep_solid_state :: AppState where
  "deep_solid_state =
     defaults\<lparr>st_view := \<lparr>view_cx = 0, view_cy = 0, view_scale = 3\<rparr>,
              st_render := (st_render defaults)\<lparr>rs_iterations := 100001\<rparr>\<rparr>"

definition deep_state :: AppState where
  "deep_state =
     defaults\<lparr>st_render := (st_render defaults)\<lparr>rs_iterations := 100001, rs_interiorSolid := False\<rparr>\<rparr>"

text \<open>
  The orbit as the specification words it, one pair of equations per fractal kind:
  Mandelbrot starts at 0 and adds the pixel's point; Julia starts at the pixel's point
  and adds the Julia constant; Burning Ship is Mandelbrot with \<open>z\<close> reflected into the
  first quadrant before the power step.
\<close>

fun spec_orbit :: "FractalType \<Rightarrow> real \<Rightarrow> vec2 \<Rightarrow> vec2 \<Rightarrow> nat \<Rightarrow> vec2" where
  "spec_orbit Mandelbrot p c0 jc 0 = (0, 0)"
| "spec_orbit Mandelbrot p c0 jc (Suc n) =
     (fst (cpow p (spec_orbit Mandelbrot p c0 jc n)) + fst c0,
      snd (cpow p (spec_orbit Mandelbrot p c0 jc n)) + snd c0)"
| "spec_orbit Julia p c0 jc 0 = c0"
| "spec_orbit Julia p c0 jc (Suc n) =
     (fst (cpow p (spec_orbit Julia p c0 jc n)) + fst jc,
      snd (cpow p (spec_orbit Julia p c0 jc n)) + snd jc)"
| "spec_orbit BurningShip p c0 jc 0 = (0, 0)"
| "spec_orbit BurningShip p c0 jc (Suc n) =
     (fst (cpow p (\<bar>fst (spec_orbit BurningShip p c0 jc n)\<bar>, \<bar>snd (spec_orbit BurningShip p c0 jc n)\<bar>)) + fst c0,
      snd (cpow p (\<bar>fst (spec_orbit BurningShip p c0 jc n)\<bar>, \<bar>snd (spec_orbit BurningShip p c0 jc n)\<bar>)) + snd c0)"

text \<open>
  The iteration as the specification words it (section 4.2, step 2): iterate up to
  \<open>iterations\<close> times along the orbit of the kind, and stop early at the first iteration
  whose \<open>z\<close> has \<open>|z|\<^sup>2 > bailout\<^sup>2\<close>. In \<open>spec_search zs b n i\<close>, \<open>i\<close> iterations are made
  and \<open>n\<close> are left; the result is the iteration count and the final \<open>z\<close>.
\<close>

fun spec_search :: "(nat \<Rightarrow> vec2) \<Rightarrow> real \<Rightarrow> nat \<Rightarrow> nat \<Rightarrow> nat \<times> vec2" where
  "spec_search zs b 0 i = (i, zs i)"
| "spec_search zs b (Suc n) i =
     (if dot2 (zs (Suc i)) (zs (Suc i)) > b * b then (i, zs (Suc i))
      else spec_search zs b n (Suc i))"

definition spec_iterate :: "FractalType \<Rightarrow> real \<Rightarrow> real \<Rightarrow> nat \<Rightarrow> vec2 \<Rightarrow> vec2 \<Rightarrow> nat \<times> vec2" where
  "spec_iterate k pw bailout iterations c0 jc =
     spec_search (spec_orbit k pw c0 jc) bailout iterations 0"

text \<open>
  The sequence of \<open>z\<close> values the shader's step produces from its initial \<open>z\<close>, and the
  bailout test of line 92. Both are the source's expressions, named so that theorems
  can speak of the first step at which the test succeeds.
\<close>

definition orbit :: "uniforms \<Rightarrow> vec2 \<Rightarrow> nat \<Rightarrow> vec2" where
  "orbit u c0 n =
     ((step (u_type u) (max 2 (u_power u)) (if u_type u = 1 then u_juliaC u else c0)) ^^ n)
       (if u_type u = 1 then c0 else (0, 0))"

definition bailed :: "uniforms \<Rightarrow> vec2 \<Rightarrow> bool" where
  "bailed u z = (dot2 z z > max 2 (u_bailout u) * max 2 (u_bailout u))"

section \<open>Palette builder\<close>

text \<open>
  \<^verbatim>\<open>src/utils/palette.ts\<close>. A stop is a position and an RGB triple; JavaScript numbers
  are idealised as reals. The table \<^verbatim>\<open>presets\<close> is an object literal, kept here as an
  association list in the order of the source.
\<close>

type_synonym rgb = "real \<times> real \<times> real"
type_synonym stop = "real \<times> rgb"

definition presets :: "(string \<times> stop list) list" where
  "presets =
     [(''electric-blue'',
         [(0, (0, 7, 100)), (16 / 100, (32, 107, 203)), (42 / 100, (237, 255, 255)),
          (6425 / 10000, (255, 170, 0)), (8575 / 10000, (0, 2, 0)), (1, (0, 7, 100))]),
      (''classic-blue'',
         [(0, (0, 0, 0)), (25 / 100, (0, 0, 64)), (5 / 10, (0, 128, 255)),
          (75 / 100, (255, 255, 255)), (1, (0, 0, 0))]),
      (''fire'',
         [(0, (0, 0, 0)), (3 / 10, (180, 20, 0)), (6 / 10, (255, 220, 0)), (1, (255, 255, 255))]),
      (''viridis'',
         [(0, (68, 1, 84)), (25 / 100, (59, 82, 139)), (5 / 10, (33, 145, 140)),
          (75 / 100, (94, 201, 97)), (1, (253, 231, 37))]),
      (''magma'',
         [(0, (0, 0, 3)), (5 / 10, (251, 53, 108)), (1, (252, 253, 191))]),
      (''plasma'',
         [(0, (12, 7, 134)), (5 / 10, (225, 77, 104)), (1, (240, 249, 33))]),
      (''rainbow'',
         [(0, (148, 0, 211)), (2 / 10, (75, 0, 130)), (4 / 10, (0, 0, 255)),
          (6 / 10, (0, 255, 0)), (8 / 10, (255, 255, 0)), (1, (255, 0, 0))]),
      (''grayscale'',
         [(0, (0, 0, 0)), (1, (255, 255, 255))])]"

text \<open>
  The value of the property access \<^verbatim>\<open>presets[cfg.preset]\<close>. \<^verbatim>\<open>presets\<close> is an ordinary
  object, so a name that is not an own property is looked up in \<^verbatim>\<open>Object.prototype\<close>:
  for the names below the access yields the inherited member (a function, or the
  prototype object for \<^verbatim>\<open>__proto__\<close>), and \<^verbatim>\<open>undefined\<close> for every other name.
\<close>

datatype js_error = TypeError

datatype js_value = Undefined | Stops "stop list" | Inherited string

definition object_prototype_keys :: "string list" where
  "object_prototype_keys =
     [''constructor'', ''__proto__'', ''hasOwnProperty'', ''isPrototypeOf'',
      ''propertyIsEnumerable'', ''toLocaleString'', ''toString'', ''valueOf'',
      ''__defineGetter__'', ''__defineSetter__'', ''__lookupGetter__'', ''__lookupSetter__'']"

definition presets_get :: "string \<Rightarrow> js_value" where
  "presets_get k =
     (case map_of presets k of
        Some s \<Rightarrow> Stops s
      | None \<Rightarrow> if k \<in> set object_prototype_keys then Inherited k else Undefined)"

text \<open>\<^verbatim>\<open>a || b\<close>: arrays, functions and objects are truthy, \<^verbatim>\<open>undefined\<close> is falsy.\<close>

definition js_or :: "js_value \<Rightarrow> js_value \<Rightarrow> js_value" where
  "js_or a b = (case a of Undefined \<Rightarrow> b | _ \<Rightarrow> a)"

definition lerp :: "real \<Rightarrow> real \<Rightarrow> real \<Rightarrow> real" where
  "lerp a b t = a + (b - a) * t"

definition clamp01 :: "real \<Rightarrow> real" where
  "clamp01 x = min 1 (max 0 x)"

definition cosineInterpolate :: "real \<Rightarrow> real \<Rightarrow> real \<Rightarrow> real" where
  "cosineInterpolate a b t = (let ct = (1 - cos (pi * t)) / 2 in a * (1 - ct) + b * ct)"

text \<open>\<^verbatim>\<open>Math.round\<close> rounds halves up.\<close>

definition js_round :: "real \<Rightarrow> int" where
  "js_round x = \<lfloor>x + 1 / 2\<rfloor>"

text \<open>
  \<^verbatim>\<open>interpRGB\<close>, lines 61-71. In the perceptual mode \<open>f\<close> is \<^verbatim>\<open>lerp\<close>, since the mode is
  not the cosine one. \<^verbatim>\<open>Math.pow\<close> is applied to non-negative bases only (the channels
  of the stops are in \<open>[0, 255]\<close>), where it is \<open>powr\<close>.
\<close>

definition interpRGB :: "rgb \<Rightarrow> rgb \<Rightarrow> real \<Rightarrow> Interpolation \<Rightarrow> int \<times> int \<times> int" where
  "interpRGB a b t mode =
     (let f = (if mode = InterpCosine then cosineInterpolate else lerp) in
      case a of (a0, a1, a2) \<Rightarrow> case b of (b0, b1, b2) \<Rightarrow>
        if mode = InterpPerceptual then
          (let lift = (\<lambda>v. (v / 255) powr (22 / 10));
               back = (\<lambda>v. js_round (clamp01 (v powr (1 / (22 / 10))) * 255))
           in (back (f (lift a0) (lift b0) t), back (f (lift a1) (lift b1) t),
               back (f (lift a2) (lift b2) t)))
        else (js_round (f a0 b0 t), js_round (f a1 b1 t), js_round (f a2 b2 t)))"

text \<open>\<^verbatim>\<open>Array.prototype.findIndex\<close>: the first index whose element passes, or -1.\<close>

fun findIndex_from :: "('a \<Rightarrow> bool) \<Rightarrow> 'a list \<Rightarrow> int \<Rightarrow> int" where
  "findIndex_from P [] i = - 1"
| "findIndex_from P (x # xs) i = (if P x then i else findIndex_from P xs (i + 1))"

definition findIndex :: "('a \<Rightarrow> bool) \<Rightarrow> 'a list \<Rightarrow> int" where
  "findIndex P xs = findIndex_from P xs 0"

text \<open>
  Lines 81-86 for a non-empty list of stops and a number \<open>t\<close>: the bracketing stops and
  the interpolated colour. \<^verbatim>\<open>stops[i1] || stops[stops.length - 1]\<close> falls back to the last
  stop when \<open>i1\<close> is past the end.
\<close>

definition sample :: "stop list \<Rightarrow> Interpolation \<Rightarrow> real \<Rightarrow> int \<times> int \<times> int" where
  "sample stops mode t =
     (let idx = findIndex (\<lambda>s. fst s \<ge> t) stops;
          i1 = max 1 idx;
          s0 = stops ! nat (i1 - 1);
          s1 = (if nat i1 < length stops then stops ! nat i1 else last stops);
          u = (t - fst s0) / max (1 / 1000000) (fst s1 - fst s0)
      in interpRGB (snd s0) (snd s1) (clamp01 u) mode)"

text \<open>
  The four bytes the loop body (lines 78-91) writes for index \<open>i\<close>, or the exception it
  throws. With an empty list \<open>s0\<close> is \<^verbatim>\<open>undefined\<close> and \<^verbatim>\<open>s0.t\<close> throws. With \<open>size = 1\<close> the
  position is \<open>0/0\<close>, a NaN: no stop passes the test, \<open>u\<close> and the three channels are NaN,
  and a NaN stored in a \<^verbatim>\<open>Uint8Array\<close> is 0. A \<^verbatim>\<open>Uint8Array\<close> keeps a number modulo 256.
\<close>

definition texel :: "PaletteConfig \<Rightarrow> stop list \<Rightarrow> nat \<Rightarrow> nat \<Rightarrow> js_error + int list" where
  "texel cfg stops sz i =
     (if stops = [] then Inl TypeError
      else if sz = 1 then Inr [0, 0, 0, 255]
      else (let t0 = real i / (real sz - 1);
                t = (if pal_reverse cfg then 1 - t0 else t0)
            in case sample stops (pal_interpolation cfg) t of
                 (r, g, b) \<Rightarrow> Inr [r mod 256, g mod 256, b mod 256, 255]))"

text \<open>
  The loop of lines 77-92 over the indices still to do. \<^verbatim>\<open>stops.findIndex\<close> throws when
  \<^verbatim>\<open>stops\<close> is not an array.
\<close>

fun fill :: "PaletteConfig \<Rightarrow> js_value \<Rightarrow> nat \<Rightarrow> nat list \<Rightarrow> js_error + int list" where
  "fill cfg v sz [] = Inr []"
| "fill cfg v sz (i # rest) =
     (case v of
        Stops stops \<Rightarrow>
          (case texel cfg stops sz i of
             Inl e \<Rightarrow> Inl e
           | Inr bytes \<Rightarrow>
               (case fill cfg v sz rest of Inl e \<Rightarrow> Inl e | Inr out \<Rightarrow> Inr (bytes @ out)))
      | _ \<Rightarrow> Inl TypeError)"

text \<open>
  \<^verbatim>\<open>buildPaletteTexture\<close>, lines 73-94. The size is a number of samples, a natural
  number. The result is the content of the \<^verbatim>\<open>Uint8Array\<close>, or the exception thrown.
\<close>

definition buildPaletteTexture :: "PaletteConfig \<Rightarrow> nat \<Rightarrow> js_error + int list" where
  "buildPaletteTexture cfg sz =
     (let stops = js_or (presets_get (pal_preset cfg)) (presets_get ''electric-blue'')
      in fill cfg stops sz [0..<sz])"

text \<open>The RGBA sample at index \<open>i\<close> of a texture.\<close>

definition texel_at :: "int list \<Rightarrow> nat \<Rightarrow> int \<times> int \<times> int \<times> int" where
  "texel_at out i = (out ! (4 * i), out ! (4 * i + 1), out ! (4 * i + 2), out ! (4 * i + 3))"

text \<open>The colour of a stop as bytes.\<close>

definition stop_colour :: "stop \<Rightarrow> int \<times> int \<times> int \<times> int" where
  "stop_colour s = (case snd s of (r, g, b) \<Rightarrow> (\<lfloor>r\<rfloor>, \<lfloor>g\<rfloor>, \<lfloor>b\<rfloor>, 255))"

text \<open>
  Auxiliary notions for the statements about the builder: a colour whose channels lie in
  \<open>[0, 255]\<close>; the three channels rounded; the bytes written for index \<open>i\<close> when no
  exception is thrown; a colour whose channels are whole numbers in \<open>[0, 255]\<close>; a
  stop list of at least two stops that starts at position 0, ends at position 1, has
  every other position below 1 (the last of them by at least \<open>1e-6\<close>), and has
  byte-valued colours at both ends.
\<close>

definition in_bytes :: "rgb \<Rightarrow> bool" where
  "in_bytes c = (case c of (r, g, b) \<Rightarrow> 0 \<le> r \<and> r \<le> 255 \<and> 0 \<le> g \<and> g \<le> 255 \<and> 0 \<le> b \<and> b \<le> 255)"

definition rounded :: "rgb \<Rightarrow> int \<times> int \<times> int" where
  "rounded c = (case c of (r, g, b) \<Rightarrow> (js_round r, js_round g, js_round b))"

definition bytes_of :: "PaletteConfig \<Rightarrow> stop list \<Rightarrow> nat \<Rightarrow> nat \<Rightarrow> int list" where
  "bytes_of cfg stops sz i = (case texel cfg stops sz i of Inr b \<Rightarrow> b | Inl e \<Rightarrow> [])"

definition byte_valued :: "rgb \<Rightarrow> bool" where
  "byte_valued c =
     (case c of (r, g, b) \<Rightarrow>
        r = of_int \<lfloor>r\<rfloor> \<and> 0 \<le> r \<and> r \<le> 255 \<and> g = of_int \<lfloor>g\<rfloor> \<and> 0 \<le> g \<and> g \<le> 255 \<and>
        b = of_int \<lfloor>b\<rfloor> \<and> 0 \<le> b \<and> b \<le> 255)"

definition well_formed_stops :: "stop list \<Rightarrow> bool" where
  "well_formed_stops stops =
     (2 \<le> length stops \<and> fst (hd stops) = 0 \<and> byte_valued (snd (hd stops)) \<and>
      list_all (\<lambda>q. fst q < 1) (butlast stops) \<and>
      fst (last (butlast stops)) \<le> 1 - 1 / 1000000 \<and>
      fst (last stops) = 1 \<and> byte_valued (snd (last stops)))"

text \<open>Two configurations of the fire preset, for concrete inputs.\<close>

definition fire_linear :: PaletteConfig where
  "fire_linear = (st_palette defaults)\<lparr>pal_preset := ''fire'', pal_interpolation := InterpLinear\<rparr>"

definition fire_reversed :: PaletteConfig where
  "fire_reversed =
     (st_palette defaults)\<lparr>pal_preset := ''fire'', pal_reverse := True,
                            pal_interpolation := InterpPerceptual\<rparr>"

section \<open>Tiled export\<close>

text \<open>
  \<^verbatim>\<open>GLRenderer.exportTiled\<close> (\<^verbatim>\<open>src/gl/renderer.ts\<close>, lines 317-384) and its caller
  \<^verbatim>\<open>exportImage\<close> (\<^verbatim>\<open>src/components/Sidebar.tsx\<close>, lines 25-51).

  A raster is a list of rows from the top, each a list of pixels from the left. A pixel
  is an RGBA8 value, or \<^term>\<open>None\<close> where the shader left the colour undefined. The
  drawing buffer keeps a colour as bytes: each channel clamped to \<open>[0, 1]\<close>, scaled by 255
  and rounded.
\<close>

type_synonym rgba8 = "int \<times> int \<times> int \<times> int"
type_synonym raster = "rgba8 option list list"

definition to_byte :: "real \<Rightarrow> int" where
  "to_byte c = \<lfloor>clamp c 0 1 * 255 + 1 / 2\<rfloor>"

definition to_rgba8 :: "vec4 \<Rightarrow> rgba8" where
  "to_rgba8 c = (case c of (r, g, b, a) \<Rightarrow> (to_byte r, to_byte g, to_byte b, to_byte a))"

text \<open>
  \<^verbatim>\<open>gl.drawArrays\<close> on a canvas of \<open>w\<close> by \<open>h\<close> pixels under the viewport \<open>(0, 0, w, h)\<close>:
  the two triangles cover every pixel, and the fragment of column \<open>x\<close> and of row \<open>y\<close>
  counted from the bottom runs \<^verbatim>\<open>main\<close> with \<^verbatim>\<open>gl_FragCoord = (x + 0.5, y + 0.5)\<close>: the
  window coordinates of OpenGL have their origin in the lower-left corner. The result
  is the canvas as \<^verbatim>\<open>drawImage\<close> reads it, rows from the top: row \<open>row\<close> of the image is
  the row \<open>h - 1 - row\<close> of the window. (The interactive code agrees: \<^verbatim>\<open>CanvasView.tsx\<close>
  maps a pointer position with the inverted \<open>y\<close>, \<^verbatim>\<open>cy - (y / height - 0.5) * height\<close>.)
\<close>

definition drawArrays :: "uniforms \<Rightarrow> nat \<Rightarrow> nat \<Rightarrow> raster" where
  "drawArrays u w h =
     map (\<lambda>row. map (\<lambda>x. map_option to_rgba8 (main u (real x + 1 / 2, real (h - 1 - row) + 1 / 2)))
                    [0..<w])
         [0..<h]"

text \<open>
  \<^verbatim>\<open>drawImage(src, 0, 0, w, h, dx, dy, w, h)\<close> onto \<open>dst\<close>, \<open>w\<close> by \<open>h\<close> the size of \<open>src\<close>:
  the pixels of \<open>src\<close> replace those of \<open>dst\<close> in the rectangle at \<open>(dx, dy)\<close> (the shader
  writes alpha 1, so compositing is replacement). The source copies through a temporary
  canvas of the same size; the two copies are one here.
\<close>

definition drawImage :: "raster \<Rightarrow> raster \<Rightarrow> nat \<Rightarrow> nat \<Rightarrow> raster" where
  "drawImage dst src dx dy =
     map (\<lambda>r. map (\<lambda>x. if dy \<le> r \<and> r < dy + length src \<and> dx \<le> x \<and> x < dx + length (src ! (r - dy))
                         then src ! (r - dy) ! (x - dx)
                         else dst ! r ! x)
                  [0..<length (dst ! r)])
         [0..<length dst]"

text \<open>A new 2D canvas is transparent black.\<close>

definition blank :: "nat \<Rightarrow> nat \<Rightarrow> raster" where
  "blank w h = replicate h (replicate w (Some (0, 0, 0, 0)))"

text \<open>
  The fields of the renderer object that the export reads, and the options of the call.
  \<^verbatim>\<open>opts.signal\<close> is an \<^verbatim>\<open>AbortSignal\<close> that other code may abort while the export
  awaits its timer; once aborted it stays aborted. Its history, as the export sees it,
  is the number of the first check that finds it aborted (checks counted from 0), or
  \<^term>\<open>None\<close> when there is no signal or no check finds it aborted.
\<close>

record renderer =
  r_paletteTex :: "vec2 \<Rightarrow> vec4"
  r_paletteSize :: real

record export_opts =
  opt_width :: nat
  opt_height :: nat
  opt_tile :: "nat option"
  opt_abort_at :: "nat option"

definition aborted :: "export_opts \<Rightarrow> nat \<Rightarrow> bool" where
  "aborted opts k = (case opt_abort_at opts of None \<Rightarrow> False | Some a \<Rightarrow> a \<le> k)"

text \<open>How a promise ends: it resolves, it rejects with an error message, or it never settles.\<close>

datatype 'a promise = Resolved 'a | Rejected string | Pending

text \<open>\<^verbatim>\<open>Math.ceil(a / b)\<close> for a positive \<open>b\<close>, and the tiles in the order of the two loops.\<close>

definition ceil_div :: "nat \<Rightarrow> nat \<Rightarrow> nat" where
  "ceil_div a b = (a + b - 1) div b"

definition tile_order :: "nat \<Rightarrow> nat \<Rightarrow> (nat \<times> nat) list" where
  "tile_order tilesX tilesY = concat (map (\<lambda>ty. map (\<lambda>tx. (tx, ty)) [0..<tilesX]) [0..<tilesY])"

text \<open>
  The body of the two loops (lines 335-380) over the tiles still to do; \<open>n_done\<close> is the
  source's \<^verbatim>\<open>done\<close>, which is also the number of the abort check about to be made.
\<close>

fun tile_loop ::
  "renderer \<Rightarrow> AppState \<Rightarrow> export_opts \<Rightarrow> nat \<Rightarrow> (nat \<times> nat) list \<Rightarrow> nat \<Rightarrow> raster \<Rightarrow> raster promise"
where
  "tile_loop r state opts tile [] n_done off = Resolved off"
| "tile_loop r state opts tile ((tx, ty) # rest) n_done off =
     (if aborted opts n_done then Rejected ''aborted''
      else (let w = min tile (opt_width opts - tx * tile);
                h = min tile (opt_height opts - ty * tile);
                u = set_uniforms state (r_paletteTex r) (r_paletteSize r)
                      (real (opt_width opts), real (opt_height opts))
                      (real (tx * tile), real (ty * tile));
                img = drawArrays u w h;
                off' = drawImage off img (tx * tile) (ty * tile)
            in tile_loop r state opts tile rest (n_done + 1) off'))"

text \<open>
  \<^verbatim>\<open>exportTiled\<close>. Sizes are natural numbers. With a tile size of 0 the tile counts are
  not finite numbers: for a height of 0 no loop runs; for a width of 0 the outer loop
  never ends; otherwise the first pass, unless it finds the signal aborted, draws from
  a canvas of size 0, for which \<^verbatim>\<open>drawImage\<close> throws an \<^verbatim>\<open>InvalidStateError\<close>.
\<close>

definition exportTiled :: "renderer \<Rightarrow> AppState \<Rightarrow> export_opts \<Rightarrow> raster promise" where
  "exportTiled r state opts =
     (let tile = (case opt_tile opts of None \<Rightarrow> 512 | Some t \<Rightarrow> t);
          off = blank (opt_width opts) (opt_height opts)
      in if tile = 0 then
           (if opt_height opts = 0 then Resolved off
            else if opt_width opts = 0 then Pending
            else if aborted opts 0 then Rejected ''aborted''
            else Rejected ''InvalidStateError'')
         else tile_loop r state opts tile
                (tile_order (ceil_div (opt_width opts) tile) (ceil_div (opt_height opts) tile)) 0 off)"

text \<open>
  The palette texture. \<^verbatim>\<open>setPalette\<close> (\<^verbatim>\<open>src/gl/renderer.ts\<close>, lines 252-264) uploads the
  bytes of \<^const>\<open>buildPaletteTexture\<close> for \<^verbatim>\<open>paletteSize = 256\<close> as an RGBA8 texture of 256
  by 1 texels, with the filter \<^verbatim>\<open>LINEAR\<close> and the wrap mode \<^verbatim>\<open>REPEAT\<close> along \<open>s\<close>; an
  exception of the builder leaves the renderer as it was and propagates. A channel of
  byte \<open>b\<close> reads as \<open>b / 255\<close>. Under linear filtering \<^verbatim>\<open>texture(u_palette, uv)\<close> mixes the
  two texels next to \<open>s * width - 1/2\<close>, their indices taken modulo the width; the texture
  has one row, so \<open>t\<close> selects nothing.
\<close>

definition texture :: "int list \<Rightarrow> nat \<Rightarrow> vec2 \<Rightarrow> vec4" where
  "texture data n uv =
     (let x = fst uv * real n - 1 / 2;
          i0 = \<lfloor>x\<rfloor>;
          a = x - of_int i0
      in case (texel_at data (nat (i0 mod int n)), texel_at data (nat ((i0 + 1) mod int n))) of
           ((r0, g0, b0, a0), (r1, g1, b1, a1)) \<Rightarrow>
             (mix (of_int r0 / 255) (of_int r1 / 255) a, mix (of_int g0 / 255) (of_int g1 / 255) a,
              mix (of_int b0 / 255) (of_int b1 / 255) a, mix (of_int a0 / 255) (of_int a1 / 255) a))"

definition setPalette :: "PaletteConfig \<Rightarrow> js_error + renderer" where
  "setPalette cfg =
     (case buildPaletteTexture cfg 256 of
        Inl e \<Rightarrow> Inl e
      | Inr data \<Rightarrow> Inr \<lparr>r_paletteTex = texture data 256, r_paletteSize = 256\<rparr>)"

text \<open>
  An export as the application starts it: the render loop of \<^verbatim>\<open>CanvasView.tsx\<close> (line 74)
  has handed the palette of the state to \<^verbatim>\<open>setPalette\<close>, and \<^verbatim>\<open>exportTiled\<close> runs on the
  same state with the texture that is bound.
\<close>

definition export_of_state :: "AppState \<Rightarrow> export_opts \<Rightarrow> js_error + raster promise" where
  "export_of_state state opts =
     (case setPalette (st_palette state) of
        Inl e \<Rightarrow> Inl e
      | Inr r \<Rightarrow> Inr (exportTiled r state opts))"






definition bleached_view :: AppState where
  "bleached_view =
     defaults\<lparr>st_view := \<lparr>view_cx = 0, view_cy = 4, view_scale = 8\<rparr>,
              st_adjust := (st_adjust defaults)\<lparr>adj_brightness := 1, adj_contrast := 1,
                                                adj_saturation := 0\<rparr>\<rparr>"

definition column_opts :: "nat \<Rightarrow> export_opts" where
  "column_opts tile = \<lparr>opt_width = 1, opt_height = 2, opt_tile = Some tile, opt_abort_at = None\<rparr>"

text \<open>
  One render of the whole canvas, as the canvas presents it; and the output canvas of an
  export whose single row of tiles has reached column \<open>n\<close>.
\<close>

definition full_frame :: "renderer \<Rightarrow> AppState \<Rightarrow> nat \<Rightarrow> nat \<Rightarrow> raster" where
  "full_frame r state W H =
     drawArrays (set_uniforms state (r_paletteTex r) (r_paletteSize r) (real W, real H) (0, 0)) W H"

definition columns_done :: "renderer \<Rightarrow> AppState \<Rightarrow> nat \<Rightarrow> nat \<Rightarrow> nat \<Rightarrow> raster" where
  "columns_done r state W H n =
     map (\<lambda>row. map (\<lambda>x. if x < n then full_frame r state W H ! row ! x else Some (0, 0, 0, 0)) [0..<W])
         [0..<H]"

section \<open>Lemmas about the evaluator\<close>

lemma to_int32_id: "- 2147483648 \<le> n \<Longrightarrow> n < 2147483648 \<Longrightarrow> to_int32 n = n"
  by (simp add: to_int32_def)

lemma to_int32_values [simp]:
  "to_int32 200 = 200" "to_int32 100001 = 100001" "to_int32 4294967301 = 5"
  by (simp_all add: to_int32_def)

lemma loop_stop: "\<not> (i < 100000 \<and> i < m) \<Longrightarrow> loop m ty c p b i z = (i, z)"
  by (subst loop.simps) auto

lemma loop_bail:
  "i < 100000 \<Longrightarrow> i < m \<Longrightarrow> dot2 (step ty p c z) (step ty p c z) > b * b \<Longrightarrow>
   loop m ty c p b i z = (i, step ty p c z)"
  by (subst loop.simps) (simp add: Let_def)

lemma loop_next:
  "i < 100000 \<Longrightarrow> i < m \<Longrightarrow> \<not> dot2 (step ty p c z) (step ty p c z) > b * b \<Longrightarrow>
   loop m ty c p b i z = loop m ty c p b (i + 1) (step ty p c z)"
  by (subst loop.simps) (simp add: Let_def)

lemma loop_steps:
  "loop m ty c p b i z = (j, z') \<Longrightarrow>
     i \<le> j \<and> z' = (step ty p c ^^ (nat (j - i) + (if j < m \<and> j < 100000 then 1 else 0))) z"
proof (induction m ty c p b i z rule: loop.induct)
  case (1 m ty c p b i z)
  show ?case
  proof (cases "i < 100000 \<and> i < m")
    case False
    with "1.prems" show ?thesis by (auto simp: loop_stop)
  next
    case True
    show ?thesis
    proof (cases "dot2 (step ty p c z) (step ty p c z) > b * b")
      case True
      with \<open>i < 100000 \<and> i < m\<close> "1.prems" show ?thesis
        by (auto simp: loop_bail)
    next
      case False
      with \<open>i < 100000 \<and> i < m\<close> "1.prems"
      have r: "loop m ty c p b (i + 1) (step ty p c z) = (j, z')"
        by (auto simp: loop_next)
      from "1.IH"[OF _ _ refl _ r] False \<open>i < 100000 \<and> i < m\<close>
      have ih: "i + 1 \<le> j" "z' = (step ty p c ^^ (nat (j - (i + 1)) + (if j < m \<and> j < 100000 then 1 else 0))) (step ty p c z)"
        by auto
      have "nat (j - i) = Suc (nat (j - (i + 1)))" using ih(1) by simp
      then show ?thesis using ih by (simp add: funpow_swap1)
    qed
  qed
qed

lemma loop_bound: "i \<le> 100000 \<Longrightarrow> fst (loop m ty c p b i z) \<le> 100000"
proof (induction m ty c p b i z rule: loop.induct)
  case (1 m ty c p b i z)
  show ?case
  proof (cases "i < 100000 \<and> i < m")
    case False
    with "1.prems" show ?thesis by (simp add: loop_stop)
  next
    case True
    show ?thesis
    proof (cases "dot2 (step ty p c z) (step ty p c z) > b * b")
      case True
      with \<open>i < 100000 \<and> i < m\<close> show ?thesis by (simp add: loop_bail)
    next
      case False
      have "fst (loop m ty c p b (i + 1) (step ty p c z)) \<le> 100000"
        using "1.IH"[OF _ _ refl False] True by auto
      then show ?thesis using True False by (simp add: loop_next)
    qed
  qed
qed

lemma loop_first_escape:
  "i + int n < 100000 \<Longrightarrow> i + int n < m \<Longrightarrow>
   (\<And>k. k < n \<Longrightarrow> \<not> dot2 ((step ty p c ^^ Suc k) z) ((step ty p c ^^ Suc k) z) > b * b) \<Longrightarrow>
   dot2 ((step ty p c ^^ Suc n) z) ((step ty p c ^^ Suc n) z) > b * b \<Longrightarrow>
   loop m ty c p b i z = (i + int n, (step ty p c ^^ Suc n) z)"
proof (induction n arbitrary: i z)
  case 0
  then show ?case by (simp add: loop_bail)
next
  case (Suc n)
  have nb: "\<not> dot2 (step ty p c z) (step ty p c z) > b * b"
    using Suc.prems(3)[of 0] by simp
  have "loop m ty c p b i z = loop m ty c p b (i + 1) (step ty p c z)"
    using Suc.prems(1,2) nb by (intro loop_next) auto
  also have "\<dots> = (i + 1 + int n, (step ty p c ^^ Suc n) (step ty p c z))"
  proof (rule Suc.IH)
    show "i + 1 + int n < 100000" "i + 1 + int n < m" using Suc.prems(1,2) by auto
    show "\<not> b * b < dot2 ((step ty p c ^^ Suc k) (step ty p c z)) ((step ty p c ^^ Suc k) (step ty p c z))"
      if "k < n" for k
      using Suc.prems(3)[of "Suc k"] that by (simp add: funpow_swap1)
    show "b * b < dot2 ((step ty p c ^^ Suc n) (step ty p c z)) ((step ty p c ^^ Suc n) (step ty p c z))"
      using Suc.prems(4) by (simp add: funpow_swap1)
  qed
  finally show ?case by (simp add: funpow_swap1)
qed

lemma loop_no_escape:
  "n = nat (min m 100000 - i) \<Longrightarrow>
   (\<And>k. k < n \<Longrightarrow> \<not> dot2 ((step ty p c ^^ Suc k) z) ((step ty p c ^^ Suc k) z) > b * b) \<Longrightarrow>
   loop m ty c p b i z = (i + int n, (step ty p c ^^ n) z)"
proof (induction n arbitrary: i z)
  case 0
  then have "\<not> (i < 100000 \<and> i < m)" by auto
  then show ?case by (simp add: loop_stop)
next
  case (Suc n)
  from Suc.prems(1) have lt: "i < 100000" "i < m" by auto
  have nb: "\<not> dot2 (step ty p c z) (step ty p c z) > b * b"
    using Suc.prems(2)[of 0] by simp
  have "loop m ty c p b i z = loop m ty c p b (i + 1) (step ty p c z)"
    using lt nb by (intro loop_next) auto
  also have "\<dots> = (i + 1 + int n, (step ty p c ^^ n) (step ty p c z))"
  proof (rule Suc.IH)
    show "n = nat (min m 100000 - (i + 1))" using Suc.prems(1) by auto
    show "\<not> b * b < dot2 ((step ty p c ^^ Suc k) (step ty p c z)) ((step ty p c ^^ Suc k) (step ty p c z))"
      if "k < n" for k
      using Suc.prems(2)[of "Suc k"] that by (simp add: funpow_swap1)
  qed
  finally show ?case by (simp add: funpow_swap1)
qed

lemma iterate_first_escape:
  assumes "int e < u_maxIter u" "e < 100000"
    and "\<And>k. k < e \<Longrightarrow> \<not> bailed u (orbit u c0 (Suc k))"
    and "bailed u (orbit u c0 (Suc e))"
  shows "iterate u c0 = (int e, orbit u c0 (Suc e))"
proof -
  let ?c = "if u_type u = 1 then u_juliaC u else c0"
  let ?z = "if u_type u = 1 then c0 else (0, 0)"
  let ?s = "step (u_type u) (max 2 (u_power u)) ?c"
  let ?b = "max 2 (u_bailout u)"
  have "loop (u_maxIter u) (u_type u) ?c (max 2 (u_power u)) ?b 0 ?z = (0 + int e, (?s ^^ Suc e) ?z)"
  proof (rule loop_first_escape)
    show "0 + int e < 100000" "0 + int e < u_maxIter u" using assms(1,2) by auto
    show "\<not> ?b * ?b < dot2 ((?s ^^ Suc k) ?z) ((?s ^^ Suc k) ?z)" if "k < e" for k
      using assms(3)[OF that] unfolding bailed_def orbit_def .
    show "?b * ?b < dot2 ((?s ^^ Suc e) ?z) ((?s ^^ Suc e) ?z)"
      using assms(4) unfolding bailed_def orbit_def .
  qed
  then show ?thesis unfolding iterate_def Let_def orbit_def by simp
qed

lemma iterate_no_escape:
  assumes "\<And>k. int k < min (u_maxIter u) 100000 \<Longrightarrow> \<not> bailed u (orbit u c0 (Suc k))"
  shows "iterate u c0 = (max 0 (min (u_maxIter u) 100000), orbit u c0 (nat (min (u_maxIter u) 100000)))"
proof -
  let ?c = "if u_type u = 1 then u_juliaC u else c0"
  let ?z = "if u_type u = 1 then c0 else (0, 0)"
  let ?s = "step (u_type u) (max 2 (u_power u)) ?c"
  let ?b = "max 2 (u_bailout u)"
  let ?n = "nat (min (u_maxIter u) 100000)"
  have "loop (u_maxIter u) (u_type u) ?c (max 2 (u_power u)) ?b 0 ?z = (0 + int ?n, (?s ^^ ?n) ?z)"
  proof (rule loop_no_escape)
    show "?n = nat (min (u_maxIter u) 100000 - 0)" by simp
    show "\<not> ?b * ?b < dot2 ((?s ^^ Suc k) ?z) ((?s ^^ Suc k) ?z)" if "k < ?n" for k
    proof -
      from that have "int k < min (u_maxIter u) 100000" by auto
      from assms[OF this] show ?thesis unfolding bailed_def orbit_def .
    qed
  qed
  moreover have "0 + int ?n = max 0 (min (u_maxIter u) 100000)" by auto
  ultimately show ?thesis unfolding iterate_def Let_def orbit_def by simp
qed

lemma bailed_vlength: "bailed u z \<Longrightarrow> vlength z > max 2 (u_bailout u)"
proof -
  assume a: "bailed u z"
  let ?b = "max 2 (u_bailout u)"
  have "?b * ?b < fst z * fst z + snd z * snd z" using a by (simp add: bailed_def dot2_def)
  then have "sqrt (?b * ?b) < sqrt (fst z * fst z + snd z * snd z)" by (simp only: real_sqrt_less_iff)
  then show ?thesis by (simp add: vlength_def)
qed

lemma smooth_escaped:
  assumes "bailed u z"
  shows "smooth u i z =
     Some (ln (ln (max (vlength z) (1 / 1000000))) / ln (max 2 (u_power u)),
           of_int i + 1 - ln (ln (max (vlength z) (1 / 1000000))) / ln (max 2 (u_power u)))"
proof -
  have r: "vlength z > 2" using bailed_vlength[OF assms] by simp
  then have m: "max (vlength z) (1 / 1000000) = vlength z" by simp
  have l1: "ln (vlength z) > 0" using r by simp
  have lp: "ln (max 2 (u_power u)) > 0" by (simp add: max_def)
  show ?thesis unfolding smooth_def Let_def m
    using r l1 lp by (simp add: glsl_log_def fdiv_def)
qed

lemma orbit_spec:
  "orbit (u\<lparr>u_type := type_code k\<rparr>) c0 n = spec_orbit k (max 2 (u_power u)) c0 (u_juliaC u) n"
  by (induction n) (cases k; simp add: orbit_def type_code_def step_def reflect_def Let_def)+

lemma loop_search:
  "n = nat (min m 100000 - int i) \<Longrightarrow>
   loop m ty c p b (int i) ((step ty p c ^^ i) z0) =
     (case spec_search (\<lambda>j. (step ty p c ^^ j) z0) b n i of (j, z) \<Rightarrow> (int j, z))"
proof (induction n arbitrary: i)
  case 0
  then have "\<not> (int i < 100000 \<and> int i < m)" by auto
  then show ?case by (simp add: loop_stop)
next
  case (Suc n)
  then have lt: "int i < 100000" "int i < m" by auto
  have n: "n = nat (min m 100000 - int (Suc i))" using Suc.prems by auto
  show ?case
  proof (cases "dot2 ((step ty p c ^^ Suc i) z0) ((step ty p c ^^ Suc i) z0) > b * b")
    case True
    then show ?thesis
      using loop_bail[OF lt, where ty = ty and p = p and c = c and z = "(step ty p c ^^ i) z0" and b = b]
      by simp
  next
    case False
    then have "loop m ty c p b (int i) ((step ty p c ^^ i) z0) =
        loop m ty c p b (int i + 1) ((step ty p c ^^ Suc i) z0)"
      using loop_next[OF lt, where ty = ty and p = p and c = c and z = "(step ty p c ^^ i) z0" and b = b]
      by simp
    also have "int i + 1 = int (Suc i)" by simp
    finally show ?thesis using Suc.IH[OF n] False by simp
  qed
qed

lemma iterate_search:
  "iterate u c0 =
     (case spec_search (orbit u c0) (max 2 (u_bailout u)) (nat (min (u_maxIter u) 100000)) 0 of
        (j, z) \<Rightarrow> (int j, z))"
proof -
  let ?c = "if u_type u = 1 then u_juliaC u else c0"
  let ?z = "if u_type u = 1 then c0 else (0, 0)"
  have o: "orbit u c0 = (\<lambda>n. (step (u_type u) (max 2 (u_power u)) ?c ^^ n) ?z)"
    by (intro ext) (simp add: orbit_def)
  show ?thesis
    unfolding o iterate_def Let_def
    using loop_search[where n = "nat (min (u_maxIter u) 100000)" and m = "u_maxIter u" and i = 0
        and ty = "u_type u" and c = ?c and p = "max 2 (u_power u)" and b = "max 2 (u_bailout u)"
        and ?z0.0 = ?z]
    by simp
qed

lemma iterate_spec:
  "iterate (u\<lparr>u_type := type_code k\<rparr>) c0 =
     map_prod int id
       (spec_iterate k (max 2 (u_power u)) (max 2 (u_bailout u)) (nat (min (u_maxIter u) 100000))
          c0 (u_juliaC u))"
proof -
  have o: "orbit (u\<lparr>u_type := type_code k\<rparr>) c0 = spec_orbit k (max 2 (u_power u)) c0 (u_juliaC u)"
    by (intro ext) (rule orbit_spec)
  show ?thesis
    by (simp add: spec_iterate_def iterate_search o split: prod.splits)
qed

lemma iterate_orbit:
  "iterate u c0 = (j, z') \<Longrightarrow>
     0 \<le> j \<and> z' = orbit u c0 (nat j + (if j < u_maxIter u \<and> j < 100000 then 1 else 0))"
  unfolding iterate_def Let_def orbit_def
  by (drule loop_steps) simp

lemma loop_budget_escaped:
  "loop m ty c p b i z = (j, z') \<Longrightarrow> j < m \<Longrightarrow> m \<le> m' \<Longrightarrow> loop m' ty c p b i z = (j, z')"
proof (induction m ty c p b i z rule: loop.induct)
  case (1 m ty c p b i z)
  show ?case
  proof (cases "i < 100000 \<and> i < m")
    case False
    with "1.prems" show ?thesis by (auto simp: loop_stop)
  next
    case True
    then have T': "i < 100000" "i < m" "i < m'" using "1.prems" by auto
    show ?thesis
    proof (cases "dot2 (step ty p c z) (step ty p c z) > b * b")
      case True
      with T' "1.prems" show ?thesis by (simp add: loop_bail)
    next
      case False
      with T' "1.prems"
      have r: "loop m ty c p b (i + 1) (step ty p c z) = (j, z')" by (simp add: loop_next)
      have "loop m' ty c p b (i + 1) (step ty p c z) = (j, z')"
        using "1.IH"[OF _ _ refl _ r] False T' "1.prems" by auto
      then show ?thesis using T' False by (simp add: loop_next)
    qed
  qed
qed

lemma loop_budget_mono:
  "m \<le> m' \<Longrightarrow> fst (loop m ty c p b i z) \<le> fst (loop m' ty c p b i z)"
proof (induction m ty c p b i z rule: loop.induct)
  case (1 m ty c p b i z)
  show ?case
  proof (cases "i < 100000 \<and> i < m")
    case False
    obtain j z' where r: "loop m' ty c p b i z = (j, z')" by (cases "loop m' ty c p b i z")
    from loop_steps[OF r] have "i \<le> j" by simp
    with False r show ?thesis by (simp add: loop_stop)
  next
    case True
    then have T': "i < 100000" "i < m" "i < m'" using "1.prems" by auto
    show ?thesis
    proof (cases "dot2 (step ty p c z) (step ty p c z) > b * b")
      case True
      with T' show ?thesis by (simp add: loop_bail)
    next
      case False
      have "fst (loop m ty c p b (i + 1) (step ty p c z)) \<le> fst (loop m' ty c p b (i + 1) (step ty p c z))"
        using "1.IH"[OF _ _ refl _ "1.prems"] False T' by auto
      then show ?thesis using T' False by (simp add: loop_next)
    qed
  qed
qed

lemma sel_power:
  "u_adjust (u\<lparr>u_power := p\<rparr>) = u_adjust u" "u_hue (u\<lparr>u_power := p\<rparr>) = u_hue u"
  "u_scaleMode (u\<lparr>u_power := p\<rparr>) = u_scaleMode u" "u_maxIter (u\<lparr>u_power := p\<rparr>) = u_maxIter u"
  "u_paletteLength (u\<lparr>u_power := p\<rparr>) = u_paletteLength u"
  "u_paletteCycle (u\<lparr>u_power := p\<rparr>) = u_paletteCycle u"
  "u_palette (u\<lparr>u_power := p\<rparr>) = u_palette u" "u_edgeGlow (u\<lparr>u_power := p\<rparr>) = u_edgeGlow u"
  by simp_all

lemma sel_bailout:
  "u_adjust (u\<lparr>u_bailout := p\<rparr>) = u_adjust u" "u_hue (u\<lparr>u_bailout := p\<rparr>) = u_hue u"
  "u_scaleMode (u\<lparr>u_bailout := p\<rparr>) = u_scaleMode u" "u_maxIter (u\<lparr>u_bailout := p\<rparr>) = u_maxIter u"
  "u_paletteLength (u\<lparr>u_bailout := p\<rparr>) = u_paletteLength u"
  "u_paletteCycle (u\<lparr>u_bailout := p\<rparr>) = u_paletteCycle u"
  "u_palette (u\<lparr>u_bailout := p\<rparr>) = u_palette u" "u_edgeGlow (u\<lparr>u_bailout := p\<rparr>) = u_edgeGlow u"
  by simp_all

lemma shade_power: "shade (u\<lparr>u_power := p\<rparr>) = shade u"
  unfolding shade_def palette_color_def adjust_color_def sel_power by (rule refl)

lemma shade_bailout: "shade (u\<lparr>u_bailout := p\<rparr>) = shade u"
  unfolding shade_def palette_color_def adjust_color_def sel_bailout by (rule refl)

section \<open>Claims about the coordinate mapper and the evaluator\<close>

lemma step_origin: "step ty p c (0, 0) = c"
  by (simp add: step_def reflect_def cpow_def vlength_def Let_def)

lemma orbit_origin:
  "u_type u \<noteq> 1 \<Longrightarrow> orbit u (0, 0) n = (0, 0)"
  by (induction n) (simp_all add: orbit_def step_origin)

lemma not_bailed_origin: "\<not> bailed u (0, 0)"
  by (simp add: bailed_def dot2_def max_def)

lemma origin_never_bails: "u_type u \<noteq> 1 \<Longrightarrow> \<not> bailed u (orbit u (0, 0) k)"
  by (simp add: orbit_origin not_bailed_origin)

lemma pixelToComplex_defined:
  "fst (u_viewSize u) \<noteq> 0 \<Longrightarrow> snd (u_viewSize u) \<noteq> 0 \<Longrightarrow> pixelToComplex u p \<noteq> None"
  by (auto simp add: pixelToComplex_def fdiv_def Let_def max_def)

text \<open>
  C8, as the code has it. \<^verbatim>\<open>pixelToComplex\<close> floors the height to 1 only where it
  computes the aspect ratio (line 60); lines 63 and 64 divide by the raw width and the
  raw height, and line 62 by the aspect ratio. So a division by zero occurs exactly when
  the width or the height of the view is 0; for every other view size no divisor is zero
  and the result is \<open>re = (px / W - 0.5) * scale + cx\<close>,
  \<open>im = (py / H - 0.5) * (scale / (W / max(1, H))) + cy\<close>, with \<open>(px, py)\<close> the fragment
  position plus the tile offset. (In the model a division by zero is the value
  \<^term>\<open>None\<close>; GLSL raises no error there, the quotient is an infinity or not a number.)
\<close>

theorem pixelToComplex_nonzero_view:
  "(pixelToComplex u fragPx \<noteq> None \<longleftrightarrow> fst (u_viewSize u) \<noteq> 0 \<and> snd (u_viewSize u) \<noteq> 0) \<and>
   (fst (u_viewSize u) \<noteq> 0 \<and> snd (u_viewSize u) \<noteq> 0 \<longrightarrow>
      pixelToComplex u fragPx =
        Some (((fst fragPx + fst (u_tileOffset u)) / fst (u_viewSize u) - 1 / 2) * u_scale u
                + fst (u_center u),
              ((snd fragPx + snd (u_tileOffset u)) / snd (u_viewSize u) - 1 / 2)
                * (u_scale u / (fst (u_viewSize u) / max 1 (snd (u_viewSize u))))
                + snd (u_center u)))"
  by (auto simp add: pixelToComplex_def fdiv_def Let_def max_def)

theorem pixelToComplex_nonzero_view_witness:
  "fst (u_viewSize (one_pixel defaults)) \<noteq> 0 \<and> snd (u_viewSize (one_pixel defaults)) \<noteq> 0 \<and>
   pixelToComplex (one_pixel defaults) (1 / 2, 1 / 2) = Some (- (3 / 4), 0)"
  using pixelToComplex_nonzero_view[of "one_pixel defaults" "(1 / 2, 1 / 2)"]
  by (simp add: one_pixel_def set_uniforms_def defaults_def)

text \<open>
  C8 as stated fails at the input it names: with a view of 100 by 0 pixels line 64
  divides \<^verbatim>\<open>px.y\<close> by the height 0, which is not floored there.
\<close>

theorem pixelToComplex_zero_height:
  "pixelToComplex ((one_pixel defaults)\<lparr>u_viewSize := (100, 0)\<rparr>) (1 / 2, 1 / 2) = None"
  by (simp add: pixelToComplex_def fdiv_def Let_def one_pixel_def set_uniforms_def)

text \<open>
  C3. For every \<open>power \<le> 2\<close> the evaluator gives what it gives with \<open>power = 2\<close>, and for
  every \<open>bailout \<le> 2\<close> what it gives with \<open>bailout = 2\<close>: the same escape flag, iteration
  count and final \<open>z\<close> (\<^const>\<open>evaluate\<close>), the same smooth count (\<^const>\<open>escape_time\<close>) and
  the same fragment colour (\<^const>\<open>main\<close>), for every point and every other uniform. The
  floor is at 2 and nowhere else: for any configured values \<open>q\<close> and \<open>d\<close> the loop is the
  specification's iteration with the exponent \<open>max(2, q)\<close> and the bailout \<open>max(2, d)\<close>.
\<close>

theorem floors_of_power_and_bailout:
  assumes "p \<le> 2" "b \<le> 2"
  shows "evaluate (u\<lparr>u_power := p\<rparr>) c0 = evaluate (u\<lparr>u_power := 2\<rparr>) c0 \<and>
   escape_time (u\<lparr>u_power := p\<rparr>) c0 = escape_time (u\<lparr>u_power := 2\<rparr>) c0 \<and>
   main (u\<lparr>u_power := p\<rparr>) frag = main (u\<lparr>u_power := 2\<rparr>) frag \<and>
   evaluate (u\<lparr>u_bailout := b\<rparr>) c0 = evaluate (u\<lparr>u_bailout := 2\<rparr>) c0 \<and>
   escape_time (u\<lparr>u_bailout := b\<rparr>) c0 = escape_time (u\<lparr>u_bailout := 2\<rparr>) c0 \<and>
   main (u\<lparr>u_bailout := b\<rparr>) frag = main (u\<lparr>u_bailout := 2\<rparr>) frag \<and>
   iterate (u\<lparr>u_power := q, u_bailout := d, u_type := type_code k\<rparr>) c0 =
     map_prod int id
       (spec_iterate k (max 2 q) (max 2 d) (nat (min (u_maxIter u) 100000)) c0 (u_juliaC u))"
proof -
  have mp: "max 2 p = 2" and mb: "max 2 b = 2" using assms by simp_all
  have i1: "iterate (u\<lparr>u_power := p\<rparr>) c = iterate (u\<lparr>u_power := 2\<rparr>) c" for c
    by (simp add: iterate_def mp)
  have i2: "iterate (u\<lparr>u_bailout := b\<rparr>) c = iterate (u\<lparr>u_bailout := 2\<rparr>) c" for c
    by (simp add: iterate_def mb)
  have s1: "smooth (u\<lparr>u_power := p\<rparr>) i z = smooth (u\<lparr>u_power := 2\<rparr>) i z" for i z
    by (simp add: smooth_def mp)
  have s2: "smooth (u\<lparr>u_bailout := b\<rparr>) i z = smooth (u\<lparr>u_bailout := 2\<rparr>) i z" for i z
    by (simp add: smooth_def)
  have e1: "escape_time (u\<lparr>u_power := p\<rparr>) c0 = escape_time (u\<lparr>u_power := 2\<rparr>) c0"
    by (simp add: escape_time_def i1 s1 split: prod.splits)
  have e2: "escape_time (u\<lparr>u_bailout := b\<rparr>) c0 = escape_time (u\<lparr>u_bailout := 2\<rparr>) c0"
    by (simp add: escape_time_def i2 s2 split: prod.splits)
  have e1': "escape_time (u\<lparr>u_power := p\<rparr>) = escape_time (u\<lparr>u_power := 2\<rparr>)"
    by (intro ext) (simp add: escape_time_def i1 s1 split: prod.splits)
  have e2': "escape_time (u\<lparr>u_bailout := b\<rparr>) = escape_time (u\<lparr>u_bailout := 2\<rparr>)"
    by (intro ext) (simp add: escape_time_def i2 s2 split: prod.splits)
  have c1: "shade (u\<lparr>u_power := p\<rparr>) = shade (u\<lparr>u_power := 2\<rparr>)"
    by (simp only: shade_power)
  have c2: "shade (u\<lparr>u_bailout := b\<rparr>) = shade (u\<lparr>u_bailout := 2\<rparr>)"
    by (simp only: shade_bailout)
  have p1: "pixelToComplex (u\<lparr>u_power := p\<rparr>) f = pixelToComplex (u\<lparr>u_power := 2\<rparr>) f" for f
    by (simp add: pixelToComplex_def)
  have p2: "pixelToComplex (u\<lparr>u_bailout := b\<rparr>) f = pixelToComplex (u\<lparr>u_bailout := 2\<rparr>) f" for f
    by (simp add: pixelToComplex_def)
  have m1: "main (u\<lparr>u_power := p\<rparr>) frag = main (u\<lparr>u_power := 2\<rparr>) frag"
    unfolding main_def p1 e1' c1 by (rule refl)
  have m2: "main (u\<lparr>u_bailout := b\<rparr>) frag = main (u\<lparr>u_bailout := 2\<rparr>) frag"
    unfolding main_def p2 e2' c2 by (rule refl)
  have v1: "evaluate (u\<lparr>u_power := p\<rparr>) c0 = evaluate (u\<lparr>u_power := 2\<rparr>) c0"
    by (simp add: evaluate_def i1)
  have v2: "evaluate (u\<lparr>u_bailout := b\<rparr>) c0 = evaluate (u\<lparr>u_bailout := 2\<rparr>) c0"
    by (simp add: evaluate_def i2)
  have sp: "iterate (u\<lparr>u_power := q, u_bailout := d, u_type := type_code k\<rparr>) c0 =
     map_prod int id
       (spec_iterate k (max 2 q) (max 2 d) (nat (min (u_maxIter u) 100000)) c0 (u_juliaC u))"
    using iterate_spec[where u = "u\<lparr>u_power := q, u_bailout := d\<rparr>" and k = k and ?c0.0 = c0]
    by simp
  show ?thesis
    by (intro conjI) (rule v1 e1 m1 v2 e2 m2 sp)+
qed

theorem floors_of_power_and_bailout_witness:
  "(0::real) \<le> 2 \<and> (1::real) \<le> 2 \<and>
   evaluate ((one_pixel defaults)\<lparr>u_power := 0\<rparr>) (5, 0) =
     evaluate ((one_pixel defaults)\<lparr>u_power := 2\<rparr>) (5, 0) \<and>
   evaluate ((one_pixel defaults)\<lparr>u_bailout := 1\<rparr>) (5, 0) =
     evaluate ((one_pixel defaults)\<lparr>u_bailout := 2\<rparr>) (5, 0) \<and>
   main ((one_pixel defaults)\<lparr>u_power := 0\<rparr>) (1 / 2, 1 / 2) =
     main ((one_pixel defaults)\<lparr>u_power := 2\<rparr>) (1 / 2, 1 / 2) \<and>
   main ((one_pixel defaults)\<lparr>u_bailout := 1\<rparr>) (1 / 2, 1 / 2) =
     main ((one_pixel defaults)\<lparr>u_bailout := 2\<rparr>) (1 / 2, 1 / 2)"
  using floors_of_power_and_bailout[where p = 0 and b = 1 and u = "one_pixel defaults"
      and ?c0.0 = "(5, 0)" and frag = "(1 / 2, 1 / 2)"]
  by simp

text \<open>
  C7. For each fractal kind, with \<^verbatim>\<open>u_type\<close> set as the renderer sets it, the loop of the
  evaluator is the specification's iteration along the orbit of that kind: from 0 with
  the pixel's point added (Mandelbrot), from the pixel's point with the fixed Julia
  constant added (Julia), and from 0 with the pixel's point added after the reflection of
  \<open>z\<close> into the first quadrant (Burning Ship). The loop makes as many passes as the
  budget allows, and at most 100000; the iteration count and the final \<open>z\<close> it leaves are
  those of the specification's iteration, so the initial \<open>z\<close>, the constant added and the
  reflection before each power step are the ones of the kind.
\<close>

theorem evaluator_follows_kind_orbit:
  "iterate (u\<lparr>u_type := type_code k\<rparr>) c0 =
     map_prod int id
       (spec_iterate k (max 2 (u_power u)) (max 2 (u_bailout u)) (nat (min (u_maxIter u) 100000))
          c0 (u_juliaC u)) \<and>
   iterationCount (evaluate (u\<lparr>u_type := type_code k\<rparr>) c0) =
     int (fst (spec_iterate k (max 2 (u_power u)) (max 2 (u_bailout u))
                 (nat (min (u_maxIter u) 100000)) c0 (u_juliaC u))) \<and>
   finalZ (evaluate (u\<lparr>u_type := type_code k\<rparr>) c0) =
     snd (spec_iterate k (max 2 (u_power u)) (max 2 (u_bailout u))
            (nat (min (u_maxIter u) 100000)) c0 (u_juliaC u))"
proof -
  obtain i z where r: "spec_iterate k (max 2 (u_power u)) (max 2 (u_bailout u))
      (nat (min (u_maxIter u) 100000)) c0 (u_juliaC u) = (i, z)"
    by (cases "spec_iterate k (max 2 (u_power u)) (max 2 (u_bailout u))
      (nat (min (u_maxIter u) 100000)) c0 (u_juliaC u)")
  show ?thesis by (simp add: evaluate_def iterate_spec r)
qed

lemma escape_is_reported:
  assumes "int e < u_maxIter u" "bailed u (orbit u c0 (Suc e))"
  shows "escaped (evaluate u c0)"
proof -
  obtain j z' where it: "iterate u c0 = (j, z')" by (cases "iterate u c0")
  show ?thesis
  proof (rule ccontr)
    assume "\<not> escaped (evaluate u c0)"
    then have j: "u_maxIter u \<le> j" by (simp add: evaluate_def it)
    from iterate_orbit[OF it] have pos: "0 \<le> j" by simp
    have "\<exists>e'. e' \<le> e \<and> bailed u (orbit u c0 (Suc e')) \<and> (\<forall>k<e'. \<not> bailed u (orbit u c0 (Suc k)))"
      using assms(2)
    proof (induction e rule: less_induct)
      case (less e)
      show ?case
      proof (cases "\<exists>k<e. bailed u (orbit u c0 (Suc k))")
        case True
        then obtain k where "k < e" "bailed u (orbit u c0 (Suc k))" by auto
        from less.IH[OF this] show ?thesis using \<open>k < e\<close> by (meson le_trans less_imp_le)
      next
        case False
        then show ?thesis using less.prems by auto
      qed
    qed
    then obtain e' where e': "e' \<le> e" "bailed u (orbit u c0 (Suc e'))"
      "\<And>k. k < e' \<Longrightarrow> \<not> bailed u (orbit u c0 (Suc k))" by auto
    show False
    proof (cases "e' < 100000")
      case True
      have "iterate u c0 = (int e', orbit u c0 (Suc e'))"
        using e' assms(1) True by (intro iterate_first_escape) auto
      then show False using it j e'(1) assms(1) by simp
    next
      case False
      have "fst (loop (u_maxIter u) (u_type u) (if u_type u = 1 then u_juliaC u else c0)
                  (max 2 (u_power u)) (max 2 (u_bailout u)) 0 (if u_type u = 1 then c0 else (0, 0)))
              \<le> 100000"
        by (rule loop_bound) simp
      then have "j \<le> 100000" using it by (simp add: iterate_def)
      then show False using j assms(1) e'(1) False by simp
    qed
  qed
qed

lemma budget_irrelevant:
  "orbit (u\<lparr>u_maxIter := N\<rparr>) c0 n = orbit u c0 n"
  "bailed (u\<lparr>u_maxIter := N\<rparr>) z = bailed u z"
  by (simp_all add: orbit_def bailed_def)

text \<open>
  C9. For budgets \<open>N1 \<le> N2\<close> and everything else fixed: the iteration count under \<open>N2\<close>
  is at least the count under \<open>N1\<close> (for every point, so for those that do not escape
  within \<open>N1\<close>); a point reported as escaped under \<open>N1\<close> has the same result under \<open>N2\<close>
  (escape flag, iteration count and final \<open>z\<close>); and a point whose orbit passes the
  bailout test at a step below \<open>N1\<close> is reported as escaped under \<open>N1\<close>, and so has the
  same result under \<open>N2\<close>.
\<close>

theorem budget_monotone:
  assumes "N1 \<le> N2"
  shows "iterationCount (evaluate (u\<lparr>u_maxIter := N1\<rparr>) c0)
           \<le> iterationCount (evaluate (u\<lparr>u_maxIter := N2\<rparr>) c0) \<and>
         (escaped (evaluate (u\<lparr>u_maxIter := N1\<rparr>) c0) \<longrightarrow>
            evaluate (u\<lparr>u_maxIter := N2\<rparr>) c0 = evaluate (u\<lparr>u_maxIter := N1\<rparr>) c0) \<and>
         (int e < N1 \<and> bailed u (orbit u c0 (Suc e)) \<longrightarrow>
            escaped (evaluate (u\<lparr>u_maxIter := N1\<rparr>) c0) \<and>
            evaluate (u\<lparr>u_maxIter := N2\<rparr>) c0 = evaluate (u\<lparr>u_maxIter := N1\<rparr>) c0)"
proof -
  let ?c = "if u_type u = 1 then u_juliaC u else c0"
  let ?z = "if u_type u = 1 then c0 else (0, 0)"
  let ?l = "\<lambda>m. loop m (u_type u) ?c (max 2 (u_power u)) (max 2 (u_bailout u)) 0 ?z"
  have it: "iterate (u\<lparr>u_maxIter := m\<rparr>) c0 = ?l m" for m
    by (simp add: iterate_def)
  obtain j z' where r: "?l N1 = (j, z')" by (cases "?l N1")
  obtain j2 z2 where r2: "?l N2 = (j2, z2)" by (cases "?l N2")
  have e1: "evaluate (u\<lparr>u_maxIter := N1\<rparr>) c0 = \<lparr>escaped = (j < N1), iterationCount = j, finalZ = z'\<rparr>"
    unfolding evaluate_def it r by simp
  have e2: "evaluate (u\<lparr>u_maxIter := N2\<rparr>) c0 = \<lparr>escaped = (j2 < N2), iterationCount = j2, finalZ = z2\<rparr>"
    unfolding evaluate_def it r2 by simp
  have mono: "fst (?l N1) \<le> fst (?l N2)" by (rule loop_budget_mono[OF assms])
  have same: "?l N2 = (j, z')" if "j < N1" by (rule loop_budget_escaped[OF r that assms])
  have first: "iterationCount (evaluate (u\<lparr>u_maxIter := N1\<rparr>) c0)
           \<le> iterationCount (evaluate (u\<lparr>u_maxIter := N2\<rparr>) c0)"
    using mono unfolding e1 e2 r r2 by simp
  have second: "evaluate (u\<lparr>u_maxIter := N2\<rparr>) c0 = evaluate (u\<lparr>u_maxIter := N1\<rparr>) c0"
    if "escaped (evaluate (u\<lparr>u_maxIter := N1\<rparr>) c0)"
  proof -
    from that have "j < N1" unfolding e1 by simp
    from same[OF this] r2 have "j2 = j" "z2 = z'" by simp_all
    then show ?thesis using \<open>j < N1\<close> assms unfolding e1 e2 by simp
  qed
  have third: "escaped (evaluate (u\<lparr>u_maxIter := N1\<rparr>) c0)"
    if "int e < N1" "bailed u (orbit u c0 (Suc e))"
    using escape_is_reported[of e "u\<lparr>u_maxIter := N1\<rparr>" c0] that
    by (simp add: budget_irrelevant)
  show ?thesis using first second third by blast
qed

lemma iterate_origin:
  "u_type u \<noteq> 1 \<Longrightarrow> iterate u (0, 0) = (max 0 (min (u_maxIter u) 100000), (0, 0))"
  using iterate_no_escape[of u "(0, 0)"]
  by (simp add: orbit_origin not_bailed_origin)

lemma iterate_far:
  assumes "u_type u \<noteq> 1" "0 < u_maxIter u" "bailed u c0"
  shows "iterate u c0 = (0, c0)"
proof -
  have o: "orbit u c0 (Suc 0) = c0" using assms(1) by (simp add: orbit_def step_origin)
  show ?thesis using iterate_first_escape[of 0 u c0] assms o by simp
qed

lemma vlength_real_axis: "0 \<le> x \<Longrightarrow> vlength (x, 0) = x"
  by (simp add: vlength_def)

lemma one_pixel_fields:
  "u_maxIter (one_pixel st) = to_int32 (rs_iterations (st_render st))"
  "u_type (one_pixel st) = type_code (rs_fractal (st_render st))"
  "u_power (one_pixel st) = rs_power (st_render st)"
  "u_bailout (one_pixel st) = rs_bailout (st_render st)"
  "u_interiorSolid (one_pixel st) = (if rs_interiorSolid (st_render st) then 1 else 0)"
  "u_palette (one_pixel st) = white"
  "u_adjust (one_pixel st) =
     (adj_brightness (st_adjust st), adj_contrast (st_adjust st), adj_gamma (st_adjust st),
      adj_saturation (st_adjust st))"
  "u_scaleMode (one_pixel st) =
     (if st_scaleMode st = ScaleLinear then 0 else if st_scaleMode st = ScaleLog then 1 else 2)"
  by (simp_all add: one_pixel_def set_uniforms_def)

theorem budget_monotone_witness:
  "(1::int) \<le> 2 \<and>
   iterationCount (evaluate (one_pixel defaults\<lparr>u_maxIter := 1\<rparr>) (0, 0))
     \<le> iterationCount (evaluate (one_pixel defaults\<lparr>u_maxIter := 2\<rparr>) (0, 0)) \<and>
   int 0 < 1 \<and> bailed (one_pixel defaults) (orbit (one_pixel defaults) (5, 0) (Suc 0)) \<and>
   escaped (evaluate (one_pixel defaults\<lparr>u_maxIter := 1\<rparr>) (5, 0)) \<and>
   evaluate (one_pixel defaults\<lparr>u_maxIter := 2\<rparr>) (5, 0)
     = evaluate (one_pixel defaults\<lparr>u_maxIter := 1\<rparr>) (5, 0)"
proof -
  let ?u = "one_pixel defaults"
  have f: "u_type ?u = 0" "u_bailout ?u = 4"
    by (simp_all add: one_pixel_fields defaults_def type_code_def)
  have o: "orbit ?u (5, 0) (Suc 0) = (5, 0)" by (simp add: orbit_def step_origin f)
  have bl: "bailed ?u (5, 0)" by (simp add: bailed_def dot2_def f)
  show ?thesis
    using budget_monotone[where ?N1.0 = 1 and ?N2.0 = 2 and u = ?u and ?c0.0 = "(0, 0)"]
      budget_monotone[where ?N1.0 = 1 and ?N2.0 = 2 and u = ?u and ?c0.0 = "(5, 0)" and e = 0] o bl
    by simp
qed

text \<open>
  C2, as the code has it. The claim holds for an iteration budget between 0 and 100000,
  the constant bound of the shader's \<^verbatim>\<open>for\<close> loop. There, if \<open>e\<close> is the first step whose
  result passes the bailout test and \<open>e\<close> is below the budget, the loop stops with
  \<open>i = e\<close> and \<open>t = e + 1 - log(log(max(r, 1e-6))) / log(power)\<close>, \<open>r\<close> the modulus of the
  final \<open>z\<close> and \<open>power\<close> the floored exponent; and if no step below the budget passes the
  test and the interior is not solid, \<open>t\<close> is the budget.
\<close>

theorem smooth_count_within_loop_bound:
  assumes "u_maxIter u \<le> 100000"
  shows "(int e < u_maxIter u \<and> (\<forall>k<e. \<not> bailed u (orbit u c0 (Suc k))) \<and>
            bailed u (orbit u c0 (Suc e)) \<longrightarrow>
            iterate u c0 = (int e, orbit u c0 (Suc e)) \<and>
            escape_time u c0 =
              Some (Shaded
                (of_int (int e) + 1
                   - ln (ln (max (vlength (orbit u c0 (Suc e))) (1 / 1000000))) / ln (max 2 (u_power u)))
                (ln (ln (max (vlength (orbit u c0 (Suc e))) (1 / 1000000))) / ln (max 2 (u_power u))))) \<and>
         (0 \<le> u_maxIter u \<and> (\<forall>k. int k < u_maxIter u \<longrightarrow> \<not> bailed u (orbit u c0 (Suc k))) \<and>
            u_interiorSolid u \<noteq> 1 \<longrightarrow>
            iterate u c0 = (u_maxIter u, orbit u c0 (nat (u_maxIter u))) \<and>
            escape_time u c0 = Some (Shaded (of_int (u_maxIter u)) 0))"
proof (intro conjI impI)
  assume h: "int e < u_maxIter u \<and> (\<forall>k<e. \<not> bailed u (orbit u c0 (Suc k))) \<and>
    bailed u (orbit u c0 (Suc e))"
  then have e: "e < 100000" using assms by auto
  show it: "iterate u c0 = (int e, orbit u c0 (Suc e))"
    using h e by (intro iterate_first_escape) auto
  show "escape_time u c0 =
      Some (Shaded
        (of_int (int e) + 1
           - ln (ln (max (vlength (orbit u c0 (Suc e))) (1 / 1000000))) / ln (max 2 (u_power u)))
        (ln (ln (max (vlength (orbit u c0 (Suc e))) (1 / 1000000))) / ln (max 2 (u_power u))))"
    using h smooth_escaped[of u "orbit u c0 (Suc e)" "int e"]
    by (simp add: escape_time_def it)
next
  assume h: "0 \<le> u_maxIter u \<and> (\<forall>k. int k < u_maxIter u \<longrightarrow> \<not> bailed u (orbit u c0 (Suc k))) \<and>
    u_interiorSolid u \<noteq> 1"
  have m: "min (u_maxIter u) 100000 = u_maxIter u" using assms by simp
  show it: "iterate u c0 = (u_maxIter u, orbit u c0 (nat (u_maxIter u)))"
    using iterate_no_escape[of u c0] h by (simp add: m)
  show "escape_time u c0 = Some (Shaded (of_int (u_maxIter u)) 0)"
    using h by (simp add: escape_time_def it)
qed

theorem smooth_count_within_loop_bound_witness:
  "u_maxIter (one_pixel gradient_state) \<le> 100000 \<and>
   escape_time (one_pixel gradient_state) (5, 0)
     = Some (Shaded (1 - ln (ln 5) / ln 2) (ln (ln 5) / ln 2)) \<and>
   escape_time (one_pixel gradient_state) (0, 0) = Some (Shaded 200 0)"
proof -
  let ?u = "one_pixel gradient_state"
  have f: "u_maxIter ?u = 200" "u_type ?u = 0" "u_interiorSolid ?u = 0" "u_power ?u = 2"
    "u_bailout ?u = 4"
    by (simp_all add: one_pixel_fields gradient_state_def defaults_def type_code_def)
  have o1: "orbit ?u (5, 0) (Suc 0) = (5, 0)" by (simp add: orbit_def step_origin f)
  have b1: "bailed ?u (5, 0)" by (simp add: bailed_def dot2_def f)
  have o0: "orbit ?u (0, 0) n = (0, 0)" for n by (rule orbit_origin) (simp add: f)
  show ?thesis
    using smooth_count_within_loop_bound[of ?u 0 "(5, 0)"]
      smooth_count_within_loop_bound[of ?u 0 "(0, 0)"]
    by (simp add: f o1 b1 o0 not_bailed_origin vlength_real_axis)
qed

text \<open>
  C2 as stated fails beyond the loop bound. With a budget of 100001, the gradient
  interior and the Mandelbrot point 0, whose orbit stays at 0 and never passes the
  bailout test (\<open>origin_never_bails\<close>), the loop ends at \<open>i = 100000\<close>, below the budget:
  the shader takes the branch of the escaped pixels, where \<open>log(log(max(0, 1e-6)))\<close> is
  the logarithm of a negative number. The claim says \<open>t = 100001\<close>.
\<close>

theorem smooth_count_beyond_loop_bound:
  "u_maxIter (one_pixel deep_state) = 100001 \<and>
   u_interiorSolid (one_pixel deep_state) = 0 \<and>
   iterate (one_pixel deep_state) (0, 0) = (100000, (0, 0)) \<and>
   escape_time (one_pixel deep_state) (0, 0) = None"
proof -
  let ?u = "one_pixel deep_state"
  have f: "u_maxIter ?u = 100001" "u_type ?u = 0" "u_interiorSolid ?u = 0" "u_power ?u = 2"
    "u_bailout ?u = 4"
    by (simp_all add: one_pixel_fields deep_state_def defaults_def type_code_def)
  have o0: "orbit ?u (0, 0) n = (0, 0)" for n by (rule orbit_origin) (simp add: f)
  have it: "iterate ?u (0, 0) = (100000, (0, 0))"
    using iterate_origin[of ?u] by (simp add: f)
  have sm: "smooth ?u 100000 (0, 0) = None"
    by (simp add: smooth_def vlength_def glsl_log_def)
  show ?thesis
    by (simp add: f o0 not_bailed_origin it escape_time_def sm)
qed

section \<open>Claims about the colour mapper\<close>

lemma colour_uniforms_irrelevant:
  "iterate (u\<lparr>u_palette := pal, u_paletteLength := len, u_paletteCycle := cyc, u_adjust := adj,
              u_hue := hue, u_edgeGlow := glow, u_scaleMode := sm\<rparr>) c0 = iterate u c0"
  "pixelToComplex (u\<lparr>u_palette := pal, u_paletteLength := len, u_paletteCycle := cyc,
              u_adjust := adj, u_hue := hue, u_edgeGlow := glow, u_scaleMode := sm\<rparr>) frag
     = pixelToComplex u frag"
  by (simp_all add: iterate_def pixelToComplex_def)

lemma p2c_one_pixel:
  "pixelToComplex (one_pixel (centred x y)) (1 / 2, 1 / 2) = Some (x, y)"
  by (simp add: pixelToComplex_def one_pixel_def centred_def set_uniforms_def defaults_def fdiv_def)

lemma mix_white: "mix 1 1 a = 1"
  by (simp add: mix_def algebra_simps)

lemma hsv2rgb_grey: "hsv2rgb (h, 0, v) = (v, v, v)"
  by (simp add: hsv2rgb_def mix_def Let_def)

lemma adjust_white:
  "u_adjust u = (0, 0, 1, 1) \<Longrightarrow> adjust_color u (1, 1, 1) = Some (1, 1, 1)"
  by (simp add: adjust_color_def Let_def fdiv_def clamp_def hsv2rgb_grey)

lemma palette_white:
  "u_palette u = white \<Longrightarrow> u_scaleMode u = 0 \<Longrightarrow> palette_color u t nu = Some (1, 1, 1)"
  by (simp add: palette_color_def white_def mix_white Let_def)

lemma shade_white:
  "u_palette u = white \<Longrightarrow> u_scaleMode u = 0 \<Longrightarrow> u_adjust u = (0, 0, 1, 1) \<Longrightarrow>
   shade u t nu = Some (1, 1, 1, 1)"
  by (simp add: shade_def palette_white adjust_white)

text \<open>
  The colour path branches on the evaluator's classification: a fragment not reported as
  escaped has, in solid mode, the fixed interior colour, whatever the colour uniforms
  are; a fragment reported as escaped has the result of \<^const>\<open>adjust_color\<close>.
\<close>

lemma colour_by_classification:
  assumes "pixelToComplex u frag = Some c0"
  shows "(\<not> escaped (evaluate u c0) \<and> u_interiorSolid u = 1 \<longrightarrow>
            main u frag = Some interior_color \<and>
            main (u\<lparr>u_palette := pal, u_paletteLength := len, u_paletteCycle := cyc,
                    u_adjust := adj, u_hue := hue, u_edgeGlow := glow, u_scaleMode := sm\<rparr>) frag
              = Some interior_color) \<and>
         (escaped (evaluate u c0) \<longrightarrow>
            main u frag =
              do {
                (nu, t) \<leftarrow> smooth u (iterationCount (evaluate u c0)) (finalZ (evaluate u c0));
                color \<leftarrow> palette_color u t nu;
                adjusted \<leftarrow> adjust_color u color;
                case adjusted of (r, g, b) \<Rightarrow> Some (r, g, b, 1)
              })"
proof -
  let ?u' = "u\<lparr>u_palette := pal, u_paletteLength := len, u_paletteCycle := cyc, u_adjust := adj,
                    u_hue := hue, u_edgeGlow := glow, u_scaleMode := sm\<rparr>"
  obtain i z where it: "iterate u c0 = (i, z)" by (cases "iterate u c0")
  have it': "iterate ?u' c0 = (i, z)" using it by (simp only: colour_uniforms_irrelevant)
  have p': "pixelToComplex ?u' frag = Some c0"
    using assms by (simp only: colour_uniforms_irrelevant)
  have a: "main u frag = Some interior_color" if "\<not> i < u_maxIter u" "u_interiorSolid u = 1"
    using that by (simp add: main_def assms escape_time_def it)
  have b: "main ?u' frag = Some interior_color" if "\<not> i < u_maxIter u" "u_interiorSolid u = 1"
    using that by (simp add: main_def p' escape_time_def it')
  have c: "main u frag =
              do {
                (nu, t) \<leftarrow> smooth u i z;
                color \<leftarrow> palette_color u t nu;
                adjusted \<leftarrow> adjust_color u color;
                case adjusted of (r, g, b) \<Rightarrow> Some (r, g, b, 1)
              }" if "i < u_maxIter u"
    using that by (cases "smooth u i z") (auto simp add: main_def assms escape_time_def it shade_def)
  show ?thesis using a b c by (simp add: evaluate_def it)
qed

text \<open>
  C6, as the code has it. For an iteration budget of at most 100000 (the bound of the
  shader's loop) and a fragment that maps to the point \<open>c0\<close>: if the orbit of \<open>c0\<close> passes
  the bailout test at no step below the budget and the interior is solid, the fragment
  colour is the fixed interior colour, and it stays that colour whatever the palette
  texture, the palette length and cycle, the adjustments, the hue, the edge glow and
  the scale mode are; if the orbit first passes the test at a step \<open>e\<close> below the budget,
  the fragment colour is the result of \<^const>\<open>adjust_color\<close> on the glowing palette colour
  of the smooth count.
\<close>

theorem solid_interior_and_adjusted_exterior:
  assumes "pixelToComplex u frag = Some c0" "u_maxIter u \<le> 100000"
  shows "((\<forall>k. int k < u_maxIter u \<longrightarrow> \<not> bailed u (orbit u c0 (Suc k))) \<and> u_interiorSolid u = 1 \<longrightarrow>
            main u frag = Some interior_color \<and>
            main (u\<lparr>u_palette := pal, u_paletteLength := len, u_paletteCycle := cyc,
                    u_adjust := adj, u_hue := hue, u_edgeGlow := glow, u_scaleMode := sm\<rparr>) frag
              = Some interior_color) \<and>
         (int e < u_maxIter u \<and> (\<forall>k<e. \<not> bailed u (orbit u c0 (Suc k))) \<and>
            bailed u (orbit u c0 (Suc e)) \<longrightarrow>
            main u frag =
              do {
                (nu, t) \<leftarrow> smooth u (int e) (orbit u c0 (Suc e));
                color \<leftarrow> palette_color u t nu;
                adjusted \<leftarrow> adjust_color u color;
                case adjusted of (r, g, b) \<Rightarrow> Some (r, g, b, 1)
              })"
proof (intro conjI impI)
  let ?u' = "u\<lparr>u_palette := pal, u_paletteLength := len, u_paletteCycle := cyc, u_adjust := adj,
                    u_hue := hue, u_edgeGlow := glow, u_scaleMode := sm\<rparr>"
  assume h: "(\<forall>k. int k < u_maxIter u \<longrightarrow> \<not> bailed u (orbit u c0 (Suc k))) \<and> u_interiorSolid u = 1"
  have m: "min (u_maxIter u) 100000 = u_maxIter u" using assms(2) by simp
  have it: "iterate u c0 = (max 0 (u_maxIter u), orbit u c0 (nat (u_maxIter u)))"
    using iterate_no_escape[of u c0] h by (simp add: m)
  have it': "iterate ?u' c0 = (max 0 (u_maxIter u), orbit u c0 (nat (u_maxIter u)))"
    using it by (simp only: colour_uniforms_irrelevant)
  have p': "pixelToComplex ?u' frag = Some c0"
    using assms(1) by (simp only: colour_uniforms_irrelevant)
  show "main u frag = Some interior_color"
    using h by (simp add: main_def assms(1) escape_time_def it)
  show "main ?u' frag = Some interior_color"
    using h by (simp add: main_def p' escape_time_def it')
next
  assume h: "int e < u_maxIter u \<and> (\<forall>k<e. \<not> bailed u (orbit u c0 (Suc k))) \<and>
            bailed u (orbit u c0 (Suc e))"
  then have e: "e < 100000" using assms(2) by auto
  have it: "iterate u c0 = (int e, orbit u c0 (Suc e))"
    using h e by (intro iterate_first_escape) auto
  show "main u frag =
              do {
                (nu, t) \<leftarrow> smooth u (int e) (orbit u c0 (Suc e));
                color \<leftarrow> palette_color u t nu;
                adjusted \<leftarrow> adjust_color u color;
                case adjusted of (r, g, b) \<Rightarrow> Some (r, g, b, 1)
              }"
    using h
    by (cases "smooth u (int e) (orbit u c0 (Suc e))")
       (auto simp add: main_def assms(1) escape_time_def it shade_def)
qed

theorem solid_interior_and_adjusted_exterior_witness:
  "pixelToComplex (one_pixel (centred 0 0)) (1 / 2, 1 / 2) = Some (0, 0) \<and>
   u_maxIter (one_pixel (centred 0 0)) \<le> 100000 \<and>
   u_interiorSolid (one_pixel (centred 0 0)) = 1 \<and>
   main (one_pixel (centred 0 0)) (1 / 2, 1 / 2) = Some interior_color \<and>
   pixelToComplex (one_pixel (centred 5 0)) (1 / 2, 1 / 2) = Some (5, 0) \<and>
   bailed (one_pixel (centred 5 0)) (orbit (one_pixel (centred 5 0)) (5, 0) (Suc 0)) \<and>
   main (one_pixel (centred 5 0)) (1 / 2, 1 / 2) = Some (1, 1, 1, 1)"
proof -
  let ?a = "one_pixel (centred 0 0)"
  let ?b = "one_pixel (centred 5 0)"
  have fa: "u_maxIter ?a = 200" "u_type ?a = 0" "u_interiorSolid ?a = 1"
    by (simp_all add: one_pixel_fields centred_def defaults_def type_code_def)
  have fb: "u_maxIter ?b = 200" "u_type ?b = 0" "u_bailout ?b = 4" "u_power ?b = 2"
    "u_palette ?b = white" "u_scaleMode ?b = 0" "u_adjust ?b = (0, 0, 1, 1)"
    by (simp_all add: one_pixel_fields centred_def defaults_def type_code_def)
  have oa: "orbit ?a (0, 0) n = (0, 0)" for n by (rule orbit_origin) (simp add: fa)
  have ob: "orbit ?b (5, 0) (Suc 0) = (5, 0)" by (simp add: orbit_def step_origin fb)
  have bl: "bailed ?b (5, 0)" by (simp add: bailed_def dot2_def fb)
  have sm: "smooth ?b 0 (5, 0) = Some (ln (ln 5) / ln 2, 1 - ln (ln 5) / ln 2)"
    using smooth_escaped[OF bl, of 0] by (simp add: vlength_real_axis fb)
  note ta = solid_interior_and_adjusted_exterior[OF p2c_one_pixel[of 0 0]]
  note tb = solid_interior_and_adjusted_exterior[OF p2c_one_pixel[of 5 0], where e = 0]
  have ma: "main ?a (1 / 2, 1 / 2) = Some interior_color"
    using ta by (simp add: fa oa not_bailed_origin)
  have mb: "main ?b (1 / 2, 1 / 2) = Some (1, 1, 1, 1)"
    using tb by (simp add: fb ob bl sm palette_white adjust_white)
  show ?thesis using ma mb fa ob bl p2c_one_pixel by simp
qed

text \<open>
  C6 as stated fails beyond the loop bound. With a budget of 100001, the solid interior
  and a view of one pixel centred at the Mandelbrot point 0, whose orbit stays at 0
  (\<open>origin_never_bails\<close>), the loop ends at \<open>i = 100000\<close>, below the budget: the shader
  does not take the branch of the interior colour but computes a colour from
  \<open>log(log(max(0, 1e-6)))\<close>, the logarithm of a negative number.
\<close>

theorem solid_interior_beyond_loop_bound:
  "pixelToComplex (one_pixel deep_solid_state) (1 / 2, 1 / 2) = Some (0, 0) \<and>
   u_maxIter (one_pixel deep_solid_state) = 100001 \<and>
   u_interiorSolid (one_pixel deep_solid_state) = 1 \<and>
   iterate (one_pixel deep_solid_state) (0, 0) = (100000, (0, 0)) \<and>
   main (one_pixel deep_solid_state) (1 / 2, 1 / 2) = None"
proof -
  let ?u = "one_pixel deep_solid_state"
  have f: "u_maxIter ?u = 100001" "u_type ?u = 0" "u_interiorSolid ?u = 1" "u_power ?u = 2"
    "u_bailout ?u = 4"
    by (simp_all add: one_pixel_fields deep_solid_state_def defaults_def type_code_def)
  have p: "pixelToComplex ?u (1 / 2, 1 / 2) = Some (0, 0)"
    unfolding deep_solid_state_def
    by (simp add: pixelToComplex_def one_pixel_def set_uniforms_def fdiv_def defaults_def)
  have it: "iterate ?u (0, 0) = (100000, (0, 0))"
    using iterate_origin[of ?u] by (simp add: f)
  have sm: "smooth ?u 100000 (0, 0) = None"
    by (simp add: smooth_def vlength_def glsl_log_def)
  show ?thesis
    by (simp add: f p it main_def escape_time_def sm)
qed

section \<open>Claims about the palette builder\<close>

lemma gamma_round_trip: "0 \<le> (x::real) \<Longrightarrow> (x powr (11 / 5)) powr (5 / 11) = x"
  by (simp add: powr_powr)

lemma clamp01_unit: "0 \<le> x \<Longrightarrow> x \<le> 255 \<Longrightarrow> clamp01 (x / 255) * 255 = x"
  by (simp add: clamp01_def)

lemma interp_at_0:
  assumes "0 \<le> a0" "a0 \<le> 255" "0 \<le> a1" "a1 \<le> 255" "0 \<le> a2" "a2 \<le> 255"
  shows "interpRGB (a0, a1, a2) b 0 mode = (js_round a0, js_round a1, js_round a2)"
  using assms
  by (cases mode; cases b)
     (simp_all add: interpRGB_def lerp_def cosineInterpolate_def Let_def gamma_round_trip clamp01_unit)

lemma interp_at_1:
  assumes "0 \<le> b0" "b0 \<le> 255" "0 \<le> b1" "b1 \<le> 255" "0 \<le> b2" "b2 \<le> 255"
  shows "interpRGB a (b0, b1, b2) 1 mode = (js_round b0, js_round b1, js_round b2)"
  using assms
  by (cases mode; cases a)
     (simp_all add: interpRGB_def lerp_def cosineInterpolate_def Let_def gamma_round_trip clamp01_unit)

lemma findIndex_from_skip:
  "(\<And>x. x \<in> set xs \<Longrightarrow> \<not> P x) \<Longrightarrow> P y \<Longrightarrow>
   findIndex_from P (xs @ y # ys) i = i + int (length xs)"
  by (induction xs arbitrary: i) simp_all

lemma sample_eq:
  "findIndex (\<lambda>q. fst q \<ge> t) stops = idx \<Longrightarrow>
   stops ! nat (max 1 idx - 1) = s0 \<Longrightarrow>
   (if nat (max 1 idx) < length stops then stops ! nat (max 1 idx) else last stops) = s1 \<Longrightarrow>
   sample stops mode t =
     interpRGB (snd s0) (snd s1) (clamp01 ((t - fst s0) / max (1 / 1000000) (fst s1 - fst s0))) mode"
  by (simp add: sample_def Let_def)

lemma sample_at_0:
  assumes "fst s = 0" "in_bytes (snd s)"
  shows "sample (s # s' # rest) mode 0 = rounded (snd s)"
proof -
  obtain r g b where s: "snd s = (r, g, b)" by (cases "snd s") auto
  have "sample (s # s' # rest) mode 0 =
     interpRGB (snd s) (snd s') (clamp01 ((0 - fst s) / max (1 / 1000000) (fst s' - fst s))) mode"
    by (rule sample_eq[where idx = 0]) (use assms(1) in \<open>simp_all add: findIndex_def\<close>)
  also have "\<dots> = interpRGB (r, g, b) (snd s') 0 mode"
    using assms(1) by (simp add: clamp01_def s)
  also have "\<dots> = rounded (snd s)"
    using assms(2) by (simp add: s in_bytes_def rounded_def interp_at_0)
  finally show ?thesis .
qed

lemma sample_at_1:
  assumes "list_all (\<lambda>q. fst q < 1) (pre @ [s])" "fst s \<le> 1 - 1 / 1000000"
    "fst s' = 1" "in_bytes (snd s')"
  shows "sample (pre @ [s, s']) mode 1 = rounded (snd s')"
proof -
  obtain r g b where s': "snd s' = (r, g, b)" by (cases "snd s'") auto
  have "findIndex_from (\<lambda>q. fst q \<ge> 1) ((pre @ [s]) @ s' # []) 0 = 0 + int (length (pre @ [s]))"
    by (rule findIndex_from_skip) (use assms in \<open>auto simp: not_le list_all_iff\<close>)
  then have i: "findIndex (\<lambda>q. fst q \<ge> 1) (pre @ [s, s']) = int (length pre) + 1"
    by (simp add: findIndex_def)
  have "sample (pre @ [s, s']) mode 1 =
     interpRGB (snd s) (snd s') (clamp01 ((1 - fst s) / max (1 / 1000000) (fst s' - fst s))) mode"
    by (rule sample_eq[OF i]) (simp_all add: nth_append nat_add_distrib)
  also have "(1 - fst s) / max (1 / 1000000) (fst s' - fst s) = 1"
    using assms(2,3) by (simp add: max_def)
  also have "interpRGB (snd s) (snd s') (clamp01 1) mode = rounded (snd s')"
    using assms(4) by (simp add: s' in_bytes_def rounded_def interp_at_1 clamp01_def)
  finally show ?thesis .
qed

lemma texel_Inr: "stops \<noteq> [] \<Longrightarrow> texel cfg stops sz i = Inr (bytes_of cfg stops sz i)"
  by (simp add: texel_def bytes_of_def Let_def split: prod.splits)

lemma bytes_of_length: "stops \<noteq> [] \<Longrightarrow> length (bytes_of cfg stops sz i) = 4"
  by (simp add: texel_def bytes_of_def Let_def split: prod.splits)

lemma bytes_of_alpha: "stops \<noteq> [] \<Longrightarrow> bytes_of cfg stops sz i ! 3 = 255"
  by (simp add: texel_def bytes_of_def Let_def split: prod.splits)

lemma fill_Inr:
  "stops \<noteq> [] \<Longrightarrow> fill cfg (Stops stops) sz is = Inr (concat (map (bytes_of cfg stops sz) is))"
  by (induction "is") (simp_all add: texel_Inr)

lemma nth_concat_quads:
  "(\<And>i. length (f i) = 4) \<Longrightarrow> k < length xs \<Longrightarrow> j < 4 \<Longrightarrow>
   concat (map f xs) ! (4 * k + j) = f (xs ! k) ! j"
proof (induction xs arbitrary: k)
  case Nil
  then show ?case by simp
next
  case (Cons x xs)
  show ?case
  proof (cases k)
    case 0
    then show ?thesis using Cons.prems by (simp add: nth_append)
  next
    case (Suc k')
    then have "4 * k + j = 4 + (4 * k' + j)" by simp
    then show ?thesis using Cons.prems Suc Cons.IH[of k'] by (simp add: nth_append)
  qed
qed

lemma length_concat_quads:
  "(\<And>i. length (f i) = 4) \<Longrightarrow> length (concat (map f xs)) = 4 * length xs"
  by (induction xs) simp_all

lemma texel_at_fill:
  assumes "stops \<noteq> []" "i < sz"
  shows "texel_at (concat (map (bytes_of cfg stops sz) [0..<sz])) i =
     (bytes_of cfg stops sz i ! 0, bytes_of cfg stops sz i ! 1, bytes_of cfg stops sz i ! 2,
      bytes_of cfg stops sz i ! 3)"
proof -
  have q: "concat (map (bytes_of cfg stops sz) [0..<sz]) ! (4 * i + j) = bytes_of cfg stops sz i ! j"
    if "j < 4" for j
    using nth_concat_quads[of "bytes_of cfg stops sz" i "[0..<sz]" j] assms that
    by (simp add: bytes_of_length)
  show ?thesis using q[of 0] q[of 1] q[of 2] q[of 3] by (simp add: texel_at_def)
qed

lemma presets_well_formed_stops: "list_all (\<lambda>p. well_formed_stops (snd p)) presets"
  by (simp add: presets_def well_formed_stops_def byte_valued_def)

lemma js_round_int: "x = of_int \<lfloor>x\<rfloor> \<Longrightarrow> js_round x = \<lfloor>x\<rfloor>"
proof -
  assume a: "x = of_int \<lfloor>x\<rfloor>"
  have "js_round x = \<lfloor>of_int \<lfloor>x\<rfloor> + (1 / 2 :: real)\<rfloor>" using a by (simp add: js_round_def)
  also have "\<dots> = \<lfloor>x\<rfloor>" by (rule floor_unique) simp_all
  finally show ?thesis .
qed

lemma byte_valued_bytes:
  assumes "byte_valued c"
  shows "in_bytes c"
    and "(case rounded c of (r, g, b) \<Rightarrow> [r mod 256, g mod 256, b mod 256, 255]) =
         (case stop_colour (t, c) of (r, g, b, a) \<Rightarrow> [r, g, b, a])"
proof -
  obtain r g b where c: "c = (r, g, b)" by (cases c) auto
  from assms show "in_bytes c" by (simp add: c byte_valued_def in_bytes_def)
  from assms have i: "r = of_int \<lfloor>r\<rfloor>" "g = of_int \<lfloor>g\<rfloor>" "b = of_int \<lfloor>b\<rfloor>"
    and bd: "0 \<le> r" "r \<le> 255" "0 \<le> g" "g \<le> 255" "0 \<le> b" "b \<le> 255"
    by (simp_all add: c byte_valued_def)
  have fl: "0 \<le> \<lfloor>r\<rfloor>" "\<lfloor>r\<rfloor> < 256" "0 \<le> \<lfloor>g\<rfloor>" "\<lfloor>g\<rfloor> < 256" "0 \<le> \<lfloor>b\<rfloor>" "\<lfloor>b\<rfloor> < 256"
    using bd by (simp_all add: floor_less_iff)
  show "(case rounded c of (r, g, b) \<Rightarrow> [r mod 256, g mod 256, b mod 256, 255]) =
         (case stop_colour (t, c) of (r, g, b, a) \<Rightarrow> [r, g, b, a])"
    using fl by (simp add: c rounded_def stop_colour_def js_round_int[OF i(1)] js_round_int[OF i(2)]
        js_round_int[OF i(3)])
qed

lemma sample_hd:
  assumes "well_formed_stops stops"
  shows "sample stops mode 0 = rounded (snd (hd stops))"
proof -
  from assms obtain s s' rest where st: "stops = s # s' # rest"
    by (cases stops; cases "tl stops") (auto simp: well_formed_stops_def)
  show ?thesis using assms sample_at_0[of s s' rest mode] byte_valued_bytes(1)[of "snd s"]
    by (simp add: st well_formed_stops_def)
qed

lemma sample_last:
  assumes "well_formed_stops stops"
  shows "sample stops mode 1 = rounded (snd (last stops))"
proof -
  from assms have l: "2 \<le> length stops" by (simp add: well_formed_stops_def)
  then have lb: "length (butlast stops) \<noteq> 0" by simp
  have ne: "stops \<noteq> []" "butlast stops \<noteq> []"
    using l lb by (auto simp del: length_butlast)
  define pre where "pre = butlast (butlast stops)"
  have st: "stops = pre @ [last (butlast stops), last stops]"
    using ne by (simp add: pre_def)
      (metis append_butlast_last_id append.assoc append_Cons append_Nil)
  have bl: "butlast stops = pre @ [last (butlast stops)]" using ne by (simp add: pre_def)
  have "sample (pre @ [last (butlast stops), last stops]) mode 1 = rounded (snd (last stops))"
  proof (rule sample_at_1)
    show "list_all (\<lambda>q. fst q < 1) (pre @ [last (butlast stops)])"
      using assms bl by (simp add: well_formed_stops_def)
  qed (use assms byte_valued_bytes(1) in \<open>simp_all add: well_formed_stops_def\<close>)
  then show ?thesis using st by simp
qed

lemma preset_known:
  assumes "map_of presets k = Some stops"
  shows "well_formed_stops stops" "stops \<noteq> []" "presets_get k = Stops stops"
proof -
  have "(k, stops) \<in> set presets" using assms by (rule map_of_SomeD)
  then show c: "well_formed_stops stops" using presets_well_formed_stops by (auto simp: list_all_iff)
  then show "stops \<noteq> []" by (auto simp: well_formed_stops_def)
  show "presets_get k = Stops stops" using assms by (simp add: presets_get_def)
qed

lemma build_preset:
  assumes "map_of presets (pal_preset cfg) = Some stops"
  shows "buildPaletteTexture cfg sz = Inr (concat (map (bytes_of cfg stops sz) [0..<sz]))"
  using preset_known[OF assms] by (simp add: buildPaletteTexture_def js_or_def fill_Inr)

lemma bytes_of_eq:
  "stops \<noteq> [] \<Longrightarrow> sz \<noteq> 1 \<Longrightarrow>
   bytes_of cfg stops sz i =
     (case sample stops (pal_interpolation cfg)
             (if pal_reverse cfg then 1 - real i / (real sz - 1) else real i / (real sz - 1)) of
        (r, g, b) \<Rightarrow> [r mod 256, g mod 256, b mod 256, 255])"
  by (simp add: bytes_of_def texel_def Let_def split: prod.splits)

lemma bytes_of_ends:
  assumes "well_formed_stops stops" "2 \<le> sz"
  shows "bytes_of cfg stops sz 0 =
           (case stop_colour (if pal_reverse cfg then last stops else hd stops) of
              (r, g, b, a) \<Rightarrow> [r, g, b, a])"
    and "bytes_of cfg stops sz (sz - 1) =
           (case stop_colour (if pal_reverse cfg then hd stops else last stops) of
              (r, g, b, a) \<Rightarrow> [r, g, b, a])"
proof -
  from assms(1) have ne: "stops \<noteq> []" by (auto simp: well_formed_stops_def)
  from assms(1) have bv: "byte_valued (snd (hd stops))" "byte_valued (snd (last stops))"
    by (simp_all add: well_formed_stops_def)
  have one: "real (sz - 1) / (real sz - 1) = 1" using assms(2) by (simp add: of_nat_diff)
  note h = byte_valued_bytes(2)[OF bv(1), of "fst (hd stops)"]
  note l = byte_valued_bytes(2)[OF bv(2), of "fst (last stops)"]
  show "bytes_of cfg stops sz 0 =
           (case stop_colour (if pal_reverse cfg then last stops else hd stops) of
              (r, g, b, a) \<Rightarrow> [r, g, b, a])"
    using assms(2) ne h l
    by (simp add: bytes_of_eq sample_hd[OF assms(1)] sample_last[OF assms(1)])
  show "bytes_of cfg stops sz (sz - 1) =
           (case stop_colour (if pal_reverse cfg then hd stops else last stops) of
              (r, g, b, a) \<Rightarrow> [r, g, b, a])"
    using assms(2) ne h l
    by (simp add: bytes_of_eq one sample_hd[OF assms(1)] sample_last[OF assms(1)])
qed

text \<open>
  C4, as the code has it. For every built-in preset, every interpolation mode, every
  reverse setting and every size of at least 2, the builder returns a texture whose
  sample 0 is the colour of the first stop and whose sample \<open>size - 1\<close> is the colour of
  the last stop, the two exchanged when the configuration is reversed. The two samples
  are equal for a preset whose first and last stops have the same colour, as
  electric-blue and classic-blue have.
\<close>

theorem palette_end_samples:
  assumes "map_of presets (pal_preset cfg) = Some stops" "2 \<le> sz"
  shows "\<exists>out. buildPaletteTexture cfg sz = Inr out \<and>
           texel_at out 0 = stop_colour (if pal_reverse cfg then last stops else hd stops) \<and>
           texel_at out (sz - 1) = stop_colour (if pal_reverse cfg then hd stops else last stops)"
proof -
  note k = preset_known[OF assms(1)]
  let ?out = "concat (map (bytes_of cfg stops sz) [0..<sz])"
  have a: "texel_at ?out 0 = stop_colour (if pal_reverse cfg then last stops else hd stops)"
    using texel_at_fill[of stops 0 sz cfg] k(2) assms(2) bytes_of_ends(1)[OF k(1) assms(2), of cfg]
    by (simp split: prod.splits)
  have b: "texel_at ?out (sz - 1) = stop_colour (if pal_reverse cfg then hd stops else last stops)"
    using texel_at_fill[of stops "sz - 1" sz cfg] k(2) assms(2) bytes_of_ends(2)[OF k(1) assms(2), of cfg]
    by (simp split: prod.splits)
  show ?thesis using build_preset[OF assms(1), of sz] a b by simp
qed

lemma fire_stops:
  "map_of presets ''fire'' =
     Some [(0, (0, 0, 0)), (3 / 10, (180, 20, 0)), (6 / 10, (255, 220, 0)), (1, (255, 255, 255))]"
  by (simp add: presets_def)

lemma electric_stops:
  "map_of presets ''electric-blue'' =
     Some [(0, (0, 7, 100)), (16 / 100, (32, 107, 203)), (42 / 100, (237, 255, 255)),
           (6425 / 10000, (255, 170, 0)), (8575 / 10000, (0, 2, 0)), (1, (0, 7, 100))]"
  by (simp add: presets_def)

theorem palette_end_samples_witness:
  "(\<exists>out. buildPaletteTexture (st_palette defaults) 256 = Inr out \<and>
          texel_at out 0 = (0, 7, 100, 255) \<and> texel_at out 255 = (0, 7, 100, 255)) \<and>
   (\<exists>out. buildPaletteTexture fire_reversed 1024 = Inr out \<and>
          texel_at out 0 = (255, 255, 255, 255) \<and> texel_at out 1023 = (0, 0, 0, 255))"
proof -
  have e: "map_of presets (pal_preset (st_palette defaults)) =
     Some [(0, (0, 7, 100)), (16 / 100, (32, 107, 203)), (42 / 100, (237, 255, 255)),
           (6425 / 10000, (255, 170, 0)), (8575 / 10000, (0, 2, 0)), (1, (0, 7, 100))]"
    using electric_stops by (simp add: defaults_def)
  have f: "map_of presets (pal_preset fire_reversed) =
     Some [(0, (0, 0, 0)), (3 / 10, (180, 20, 0)), (6 / 10, (255, 220, 0)), (1, (255, 255, 255))]"
    using fire_stops by (simp add: fire_reversed_def)
  have r: "\<not> pal_reverse (st_palette defaults)" "pal_reverse fire_reversed"
    by (simp_all add: defaults_def fire_reversed_def)
  show ?thesis
    using palette_end_samples[OF e, of 256] palette_end_samples[OF f, of 1024] r
    by (simp add: stop_colour_def)
qed

text \<open>
  C4 as stated fails for the presets whose last stop has another colour than the first:
  the fire preset, built linearly at size 2 and not reversed, starts with the black of
  its first stop and ends with the white of its last stop.
\<close>

theorem fire_palette_not_cyclic:
  "buildPaletteTexture fire_linear 2 = Inr [0, 0, 0, 255, 255, 255, 255, 255]"
proof -
  have f: "map_of presets (pal_preset fire_linear) =
     Some [(0, (0, 0, 0)), (3 / 10, (180, 20, 0)), (6 / 10, (255, 220, 0)), (1, (255, 255, 255))]"
    using fire_stops by (simp add: fire_linear_def)
  have r: "\<not> pal_reverse fire_linear" by (simp add: fire_linear_def defaults_def)
  have u: "[0..<2] = [0, 1]" by (simp add: upt_rec)
  show ?thesis
    using build_preset[OF f, of 2] bytes_of_ends[OF preset_known(1)[OF f], of 2 fire_linear] r
    by (simp add: u stop_colour_def)
qed

text \<open>
  C10. The claim: for every preset name that is not built in, the builder falls back to
  the electric-blue stops and does not fail. For the name \<^verbatim>\<open>constructor\<close> (and every other
  name that \<^verbatim>\<open>Object.prototype\<close> defines) the lookup yields the inherited member, the
  fallback is not taken, and the first pass of the loop throws a \<^verbatim>\<open>TypeError\<close>, for every
  size of at least 1. The lemmas after the theorem give what does hold: the fallback for
  every other unknown name, and \<open>4 * size\<close> bytes with alpha 255 whenever the builder
  returns.
\<close>

theorem inherited_preset_name_throws:
  "buildPaletteTexture (cfg\<lparr>pal_preset := ''constructor''\<rparr>) (Suc n) = Inl TypeError \<and>
   buildPaletteTexture (cfg\<lparr>pal_preset := ''toString''\<rparr>) (Suc n) = Inl TypeError"
proof -
  have c: "presets_get ''constructor'' = Inherited ''constructor''"
    "presets_get ''toString'' = Inherited ''toString''"
    by (simp_all add: presets_get_def presets_def object_prototype_keys_def)
  have u: "[0..<Suc n] = 0 # [1..<Suc n]" by (simp add: upt_rec)
  show ?thesis by (simp add: buildPaletteTexture_def c js_or_def u del: upt_Suc)
qed

lemma palette_fallback:
  assumes "map_of presets (pal_preset cfg) = None"
    "pal_preset cfg \<notin> set object_prototype_keys"
  shows "buildPaletteTexture cfg sz = buildPaletteTexture (cfg\<lparr>pal_preset := ''electric-blue''\<rparr>) sz"
proof -
  obtain S where S: "presets_get ''electric-blue'' = Stops S"
    using preset_known(3)[OF electric_stops] by simp
  have a: "presets_get (pal_preset cfg) = Undefined" using assms by (simp add: presets_get_def)
  have texel_cfg: "texel (cfg\<lparr>pal_preset := p\<rparr>) stops sz i = texel cfg stops sz i" for p stops i
    by (simp add: texel_def)
  have fill_cfg: "fill (cfg\<lparr>pal_preset := p\<rparr>) v sz xs = fill cfg v sz xs" for p v xs
    by (induction xs) (auto simp add: texel_cfg split: js_value.splits sum.splits)
  show ?thesis
    by (simp add: buildPaletteTexture_def a S js_or_def fill_cfg)
qed

lemma build_cases:
  assumes "buildPaletteTexture cfg sz = Inr out"
  shows "(sz = 0 \<and> out = []) \<or>
         (\<exists>stops. stops \<noteq> [] \<and> out = concat (map (bytes_of cfg stops sz) [0..<sz]))"
proof -
  let ?v = "js_or (presets_get (pal_preset cfg)) (presets_get ''electric-blue'')"
  have f: "fill cfg ?v sz [0..<sz] = Inr out" using assms by (simp add: buildPaletteTexture_def)
  have "sz = 0 \<or> (\<exists>stops. ?v = Stops stops \<and> stops \<noteq> [])"
  proof (cases "map_of presets (pal_preset cfg)")
    case (Some stops)
    then show ?thesis using preset_known[OF Some] by (auto simp: js_or_def)
  next
    case None
    show ?thesis
    proof (cases "pal_preset cfg \<in> set object_prototype_keys")
      case True
      then have v: "?v = Inherited (pal_preset cfg)"
        using None by (simp add: presets_get_def js_or_def)
      show ?thesis
      proof (cases sz)
        case 0
        then show ?thesis by simp
      next
        case (Suc n)
        have "[0..<Suc n] = 0 # [1..<Suc n]" by (simp add: upt_rec)
        then have "fill cfg ?v sz [0..<sz] = Inl TypeError" using v Suc by simp
        then show ?thesis using f by simp
      qed
    next
      case False
      then have "?v = presets_get ''electric-blue''"
        using None by (simp add: presets_get_def js_or_def)
      then show ?thesis using preset_known[OF electric_stops] by simp
    qed
  qed
  then show ?thesis using f by (auto simp: fill_Inr)
qed

lemma palette_length:
  assumes "buildPaletteTexture cfg sz = Inr out"
  shows "length out = 4 * sz"
  using build_cases[OF assms] by (auto simp: length_concat_quads bytes_of_length)

lemma palette_alpha:
  assumes "buildPaletteTexture cfg sz = Inr out" "i < sz"
  shows "out ! (4 * i + 3) = 255"
proof -
  from build_cases[OF assms(1)] assms(2)
  obtain stops where s: "stops \<noteq> []" "out = concat (map (bytes_of cfg stops sz) [0..<sz])"
    by auto
  show ?thesis
    using nth_concat_quads[of "bytes_of cfg stops sz" i "[0..<sz]" 3] s assms(2)
    by (simp add: bytes_of_length bytes_of_alpha)
qed

section \<open>Claims about the tiled export\<close>

lemma main_tile_offset:
  "main (set_uniforms state tex ps vs (ox, oy)) (fx, fy) =
   main (set_uniforms state tex ps vs (0, 0)) (fx + ox, fy + oy)"
proof -
  have p: "pixelToComplex (set_uniforms state tex ps vs (ox, oy)) (fx, fy) =
           pixelToComplex (set_uniforms state tex ps vs (0, 0)) (fx + ox, fy + oy)"
    by (simp add: pixelToComplex_def set_uniforms_def)
  have i: "iterate (set_uniforms state tex ps vs (ox, oy)) = iterate (set_uniforms state tex ps vs (0, 0))"
    by (intro ext) (simp add: iterate_def set_uniforms_def)
  have s: "smooth (set_uniforms state tex ps vs (ox, oy)) = smooth (set_uniforms state tex ps vs (0, 0))"
    by (intro ext) (simp add: smooth_def set_uniforms_def)
  have f: "u_maxIter (set_uniforms state tex ps vs (ox, oy)) = u_maxIter (set_uniforms state tex ps vs (0, 0))"
    "u_interiorSolid (set_uniforms state tex ps vs (ox, oy)) = u_interiorSolid (set_uniforms state tex ps vs (0, 0))"
    "u_scaleMode (set_uniforms state tex ps vs (ox, oy)) = u_scaleMode (set_uniforms state tex ps vs (0, 0))"
    "u_paletteLength (set_uniforms state tex ps vs (ox, oy)) = u_paletteLength (set_uniforms state tex ps vs (0, 0))"
    "u_paletteCycle (set_uniforms state tex ps vs (ox, oy)) = u_paletteCycle (set_uniforms state tex ps vs (0, 0))"
    "u_palette (set_uniforms state tex ps vs (ox, oy)) = u_palette (set_uniforms state tex ps vs (0, 0))"
    "u_edgeGlow (set_uniforms state tex ps vs (ox, oy)) = u_edgeGlow (set_uniforms state tex ps vs (0, 0))"
    "u_adjust (set_uniforms state tex ps vs (ox, oy)) = u_adjust (set_uniforms state tex ps vs (0, 0))"
    "u_hue (set_uniforms state tex ps vs (ox, oy)) = u_hue (set_uniforms state tex ps vs (0, 0))"
    by (simp_all add: set_uniforms_def)
  have e: "escape_time (set_uniforms state tex ps vs (ox, oy)) = escape_time (set_uniforms state tex ps vs (0, 0))"
    unfolding escape_time_def i s f by (rule refl)
  have c: "shade (set_uniforms state tex ps vs (ox, oy)) = shade (set_uniforms state tex ps vs (0, 0))"
    unfolding shade_def palette_color_def adjust_color_def f by (rule refl)
  show ?thesis unfolding main_def p e c by (rule refl)
qed

text \<open>
  Columns of tiles are seamless: with a tile size of at least the height (one row of
  tiles) the export is the one render of the whole canvas, whatever the tile size.
\<close>

lemma drawArrays_shape:
  "length (drawArrays u w h) = h"
  "row < h \<Longrightarrow> length (drawArrays u w h ! row) = w"
  "row < h \<Longrightarrow> x < w \<Longrightarrow>
   drawArrays u w h ! row ! x =
     map_option to_rgba8 (main u (real x + 1 / 2, real (h - 1 - row) + 1 / 2))"
  by (simp_all add: drawArrays_def)

lemma columns_done_shape:
  "length (columns_done r state W H n) = H"
  "row < H \<Longrightarrow> length (columns_done r state W H n ! row) = W"
  "row < H \<Longrightarrow> x < W \<Longrightarrow>
   columns_done r state W H n ! row ! x =
     (if x < n then full_frame r state W H ! row ! x else Some (0, 0, 0, 0))"
  by (simp_all add: columns_done_def)

lemma drawImage_shape:
  "length (drawImage dst src dx dy) = length dst"
  "row < length dst \<Longrightarrow> length (drawImage dst src dx dy ! row) = length (dst ! row)"
  "row < length dst \<Longrightarrow> x < length (dst ! row) \<Longrightarrow>
   drawImage dst src dx dy ! row ! x =
     (if dy \<le> row \<and> row < dy + length src \<and> dx \<le> x \<and> x < dx + length (src ! (row - dy))
      then src ! (row - dy) ! (x - dx) else dst ! row ! x)"
  by (simp_all add: drawImage_def)

lemma raster_eqI:
  assumes "length a = H" "length b = H"
    and "\<And>row. row < H \<Longrightarrow> length (a ! row) = W"
    and "\<And>row. row < H \<Longrightarrow> length (b ! row) = W"
    and "\<And>row x. row < H \<Longrightarrow> x < W \<Longrightarrow> a ! row ! x = b ! row ! x"
  shows "a = (b :: raster)"
proof (rule nth_equalityI)
  show "length a = length b" using assms(1,2) by simp
  fix row assume "row < length a"
  then have r: "row < H" using assms(1) by simp
  show "a ! row = b ! row"
    by (rule nth_equalityI) (use r assms(3,4,5) in auto)
qed

lemma columns_done_0: "columns_done r state W H 0 = blank W H"
  by (rule raster_eqI[of _ H _ W]) (simp_all add: columns_done_shape blank_def)

lemma columns_done_all: "W \<le> n \<Longrightarrow> columns_done r state W H n = full_frame r state W H"
  by (rule raster_eqI[of _ H _ W])
     (simp_all add: columns_done_shape full_frame_def drawArrays_shape)

lemma draw_column:
  assumes "n + w \<le> W"
  shows "drawImage (columns_done r state W H n)
           (drawArrays (set_uniforms state (r_paletteTex r) (r_paletteSize r) (real W, real H)
                          (real n, 0)) w H) n 0
         = columns_done r state W H (n + w)"
proof (rule raster_eqI[of _ H _ W])
  let ?u = "set_uniforms state (r_paletteTex r) (r_paletteSize r) (real W, real H)"
  let ?img = "drawArrays (?u (real n, 0)) w H"
  show "length (drawImage (columns_done r state W H n) ?img n 0) = H"
    by (simp add: drawImage_shape columns_done_shape)
  show "length (columns_done r state W H (n + w)) = H" by (simp add: columns_done_shape)
  show "length (drawImage (columns_done r state W H n) ?img n 0 ! row) = W" if "row < H" for row
    using that by (simp add: drawImage_shape columns_done_shape)
  show "length (columns_done r state W H (n + w) ! row) = W" if "row < H" for row
    using that by (simp add: columns_done_shape)
  show "drawImage (columns_done r state W H n) ?img n 0 ! row ! x
          = columns_done r state W H (n + w) ! row ! x" if "row < H" "x < W" for row x
  proof (cases "n \<le> x \<and> x < n + w")
    case True
    have xw: "x - n < w" using True by auto
    have e: "real (x - n) + 1 / 2 + real n = real x + 1 / 2" using True by (simp add: of_nat_diff)
    have "?img ! row ! (x - n) =
        map_option to_rgba8 (main (?u (real n, 0)) (real (x - n) + 1 / 2, real (H - 1 - row) + 1 / 2))"
      using that(1) xw by (rule drawArrays_shape(3))
    also have "\<dots> = map_option to_rgba8 (main (?u (0, 0)) (real x + 1 / 2, real (H - 1 - row) + 1 / 2))"
      using main_tile_offset[of state "r_paletteTex r" "r_paletteSize r" "(real W, real H)"
          "real n" 0 "real (x - n) + 1 / 2" "real (H - 1 - row) + 1 / 2"]
      by (simp only: e add_0_right)
    also have "\<dots> = full_frame r state W H ! row ! x"
      using that by (simp add: full_frame_def drawArrays_shape)
    finally have "?img ! row ! (x - n) = full_frame r state W H ! row ! x" .
    then show ?thesis using that True xw
      by (simp add: drawImage_shape columns_done_shape drawArrays_shape)
  next
    case False
    then show ?thesis using that
      by (auto simp add: drawImage_shape columns_done_shape drawArrays_shape)
  qed
qed

lemma less_ceil_div: "0 < t \<Longrightarrow> j < ceil_div W t \<longleftrightarrow> j * t < W"
proof -
  assume t: "0 < t"
  have "j < ceil_div W t \<longleftrightarrow> Suc j \<le> (W + t - 1) div t" by (simp add: ceil_div_def Suc_le_eq)
  also have "\<dots> \<longleftrightarrow> Suc j * t \<le> W + t - 1" using t by (simp add: less_eq_div_iff_mult_less_eq)
  also have "\<dots> \<longleftrightarrow> j * t < W" using t by auto
  finally show ?thesis .
qed

lemma row_loop:
  assumes "0 < t" "opt_height opts \<le> t" "opt_abort_at opts = None"
  shows "j \<le> ceil_div (opt_width opts) t \<Longrightarrow> k = ceil_div (opt_width opts) t - j \<Longrightarrow>
     tile_loop r state opts t (map (\<lambda>tx. (tx, 0)) [j..<ceil_div (opt_width opts) t]) d
       (columns_done r state (opt_width opts) (opt_height opts) (min (j * t) (opt_width opts)))
     = Resolved (full_frame r state (opt_width opts) (opt_height opts))"
proof (induction k arbitrary: j d)
  case 0
  then have j: "j = ceil_div (opt_width opts) t" by simp
  have "\<not> j * t < opt_width opts" using less_ceil_div[OF assms(1), of j "opt_width opts"] j by simp
  then show ?case using j by (simp add: columns_done_all)
next
  case (Suc k)
  let ?W = "opt_width opts" and ?H = "opt_height opts"
  from Suc.prems have lt: "j < ceil_div ?W t" by simp
  then have jt: "j * t < ?W" using less_ceil_div[OF assms(1)] by simp
  have up: "[j..<ceil_div ?W t] = j # [Suc j..<ceil_div ?W t]" using lt by (simp add: upt_rec)
  let ?w = "min t (?W - j * t)"
  have w: "j * t + ?w \<le> ?W" using jt by simp
  have nx: "min (Suc j * t) ?W = j * t + ?w" using jt by (auto simp add: min_def)
  have h: "min t ?H = ?H" using assms(2) by simp
  have dr: "drawImage (columns_done r state ?W ?H (j * t))
           (drawArrays (set_uniforms state (r_paletteTex r) (r_paletteSize r) (real ?W, real ?H)
                          (real (j * t), 0)) ?w ?H) (j * t) 0
         = columns_done r state ?W ?H (min (Suc j * t) ?W)"
    using draw_column[OF w, of r state ?H] by (simp only: nx)
  have ih: "tile_loop r state opts t (map (\<lambda>tx. (tx, 0)) [Suc j..<ceil_div ?W t]) (d + 1)
       (columns_done r state ?W ?H (min (Suc j * t) ?W))
     = Resolved (full_frame r state ?W ?H)"
    using Suc.prems by (intro Suc.IH) auto
  have m: "min (j * t) ?W = j * t" using jt by simp
  show ?case
    unfolding up m using ih dr assms(3)
    by (simp add: aborted_def h Let_def)
qed

lemma single_row_of_tiles:
  assumes "opt_tile opts = Some t" "0 < t" "opt_height opts \<le> t" "opt_abort_at opts = None"
  shows "exportTiled r state opts = Resolved (full_frame r state (opt_width opts) (opt_height opts))"
proof (cases "opt_height opts = 0")
  case True
  have "ceil_div 0 t = 0" using assms(2) by (simp add: ceil_div_def)
  then show ?thesis using assms True
    by (simp add: exportTiled_def tile_order_def blank_def full_frame_def drawArrays_def)
next
  case False
  then have "ceil_div (opt_height opts) t = 1"
    using assms(2,3) less_ceil_div[OF assms(2), of 0 "opt_height opts"]
      less_ceil_div[OF assms(2), of 1 "opt_height opts"] by auto
  then have o: "tile_order (ceil_div (opt_width opts) t) (ceil_div (opt_height opts) t) =
      map (\<lambda>tx. (tx, 0)) [0..<ceil_div (opt_width opts) t]"
    by (simp add: tile_order_def)
  show ?thesis
    using row_loop[OF assms(2,3,4), of 0 _ r state 0] assms(1,2)
    by (simp add: exportTiled_def o columns_done_0)
qed

lemma columns_of_tiles_seamless:
  assumes "opt_abort_at opts = None" "0 < t" "opt_height opts \<le> t" "0 < t'" "opt_height opts \<le> t'"
  shows "exportTiled r state (opts\<lparr>opt_tile := Some t\<rparr>) = exportTiled r state (opts\<lparr>opt_tile := Some t'\<rparr>)"
  using single_row_of_tiles[of "opts\<lparr>opt_tile := Some t\<rparr>" t r state]
    single_row_of_tiles[of "opts\<lparr>opt_tile := Some t'\<rparr>" t' r state] assms
  by simp

lemma adjust_bleached:
  assumes "u_adjust u = (1, 1, 1, 0)" "0 \<le> r0" "0 \<le> g0" "0 \<le> b0"
  shows "adjust_color u (r0, g0, b0) = Some (1, 1, 1)"
proof -
  have g: "(max ((x + 1 - 1 / 2) * (1 + 1) + 1 / 2) 0) powr (1 / max (1 / 10) 1) = 2 * x + 3 / 2"
    if "0 \<le> x" for x :: real
    using that by (simp add: max_def algebra_simps)
  define cr cg cb where "cr = 2 * r0 + 3 / 2" and "cg = 2 * g0 + 3 / 2" and "cb = 2 * b0 + 3 / 2"
  define M m where "M = max (max cr cg) cb" and "m = min (min cr cg) cb"
  have bounds: "3 / 2 \<le> M" "3 / 2 \<le> m"
    using assms(2,3,4) by (simp_all add: M_def m_def cr_def cg_def cb_def le_max_iff_disj)
  define D where "D = 1 - \<bar>2 * ((M + m) * (1 / 2)) - 1\<bar> + 1 / 1000000"
  have D: "D \<noteq> 0" using bounds by (simp add: D_def)
  have L: "1 \<le> (M + m) * (1 / 2)" using bounds by simp
  have "adjust_color u (r0, g0, b0) =
      fdiv (M - m) D \<bind>
        (\<lambda>s. let h0 = (if M \<noteq> m then
                      fract ((if M = cr then (cg - cb) / (M - m)
                              else if M = cg then 2 + (cb - cr) / (M - m)
                              else 4 + (cr - cg) / (M - m)) / 6)
                    else 0);
                  h = fract (h0 + u_hue u / 360)
              in case hsv2rgb (h, clamp (s * 0) 0 1, (M + m) * (1 / 2)) of (r, g', b) \<Rightarrow>
                   Some (clamp r 0 1, clamp g' 0 1, clamp b 0 1))"
    unfolding adjust_color_def assms(1) prod.case Let_def g[OF assms(2)] g[OF assms(3)] g[OF assms(4)]
      cr_def[symmetric] cg_def[symmetric] cb_def[symmetric] M_def[symmetric] m_def[symmetric]
      D_def[symmetric]
    by (rule refl)
  also have "\<dots> = Some (1, 1, 1)"
    using D L by (simp add: fdiv_def Let_def clamp_def hsv2rgb_grey)
  finally show ?thesis .
qed

lemma mix_nonneg: "0 \<le> p \<Longrightarrow> 0 \<le> q \<Longrightarrow> 0 \<le> a \<Longrightarrow> a \<le> 1 \<Longrightarrow> 0 \<le> mix p q a"
  by (simp add: mix_def)

lemma shade_bleached:
  assumes "u_adjust u = (1, 1, 1, 0)" "u_scaleMode u = 0" "0 \<le> u_edgeGlow u" "u_edgeGlow u \<le> 1"
    and tex: "\<And>uv. case u_palette u uv of (r, g, b, a) \<Rightarrow> 0 \<le> r \<and> 0 \<le> g \<and> 0 \<le> b"
  shows "shade u t nu = Some (1, 1, 1, 1)"
proof -
  define idx where "idx = fract (t * u_paletteLength u / max 1 (real_of_int (u_maxIter u)) + u_paletteCycle u)"
  obtain pr pg pb pa where p: "u_palette u (idx, 1 / 2) = (pr, pg, pb, pa)"
    by (cases "u_palette u (idx, 1 / 2)") auto
  have nn: "0 \<le> pr" "0 \<le> pg" "0 \<le> pb" using tex[of "(idx, 1 / 2)"] by (simp_all add: p)
  define a where "a = exp (- 3 * \<bar>nu\<bar>) * u_edgeGlow u"
  have e: "exp (- 3 * \<bar>nu\<bar>) \<le> 1" by simp
  have a: "0 \<le> a" "a \<le> 1"
    using assms(3,4) e by (simp_all add: a_def mult_le_one)
  have pc: "palette_color u t nu = Some (mix pr 1 a, mix pg 1 a, mix pb 1 a)"
    by (simp add: palette_color_def assms(2) Let_def p[unfolded idx_def] a_def)
  show ?thesis
    using adjust_bleached[OF assms(1), of "mix pr 1 a" "mix pg 1 a" "mix pb 1 a"] nn a
    by (simp add: shade_def pc mix_nonneg)
qed

lemma bytes_of_nonneg: "stops \<noteq> [] \<Longrightarrow> j < 4 \<Longrightarrow> 0 \<le> bytes_of cfg stops sz i ! j"
  by (auto simp add: bytes_of_def texel_def Let_def nth_Cons' split: prod.splits)

lemma palette_nonneg:
  assumes "buildPaletteTexture cfg sz = Inr out" "i < sz" "j < 4"
  shows "0 \<le> out ! (4 * i + j)"
proof -
  from build_cases[OF assms(1)] assms(2)
  obtain stops where s: "stops \<noteq> []" "out = concat (map (bytes_of cfg stops sz) [0..<sz])"
    by auto
  show ?thesis
    using nth_concat_quads[of "bytes_of cfg stops sz" i "[0..<sz]" j] s assms(2,3)
    by (simp add: bytes_of_length bytes_of_nonneg)
qed

lemma texture_nonneg:
  assumes "\<And>i j. i < n \<Longrightarrow> j < 4 \<Longrightarrow> 0 \<le> data ! (4 * i + j)" "0 < n"
  shows "case texture data n uv of (r, g, b, a) \<Rightarrow> 0 \<le> r \<and> 0 \<le> g \<and> 0 \<le> b"
proof -
  define x where "x = fst uv * real n - 1 / 2"
  define a where "a = x - of_int \<lfloor>x\<rfloor>"
  have a: "0 \<le> a" "a \<le> 1" by (simp_all add: a_def) linarith+
  have k: "nat (i mod int n) < n" for i using assms(2) by (simp add: nat_less_iff)
  have t: "case texel_at data (nat (i mod int n)) of (r, g, b, al) \<Rightarrow> 0 \<le> r \<and> 0 \<le> g \<and> 0 \<le> b" for i
    using assms(1)[OF k[of i], of 0] assms(1)[OF k[of i], of 1] assms(1)[OF k[of i], of 2]
    by (simp add: texel_at_def)
  show ?thesis
    using t[of "\<lfloor>x\<rfloor>"] t[of "\<lfloor>x\<rfloor> + 1"] a
    by (auto simp add: texture_def Let_def x_def[symmetric] a_def[symmetric] mix_nonneg
        split: prod.splits)
qed

lemma setPalette_default:
  "\<exists>data. setPalette (st_palette bleached_view) = Inr \<lparr>r_paletteTex = texture data 256, r_paletteSize = 256\<rparr> \<and>
     (\<forall>uv. case texture data 256 uv of (r, g, b, a) \<Rightarrow> 0 \<le> r \<and> 0 \<le> g \<and> 0 \<le> b)"
proof -
  have p: "pal_preset (st_palette bleached_view) = ''electric-blue''"
    by (simp add: bleached_view_def defaults_def)
  obtain S where S: "map_of presets ''electric-blue'' = Some S" using electric_stops by auto
  have b: "buildPaletteTexture (st_palette bleached_view) 256 =
      Inr (concat (map (bytes_of (st_palette bleached_view) S 256) [0..<256]))"
    using build_preset[of "st_palette bleached_view" S 256] S by (simp add: p)
  show ?thesis
    using texture_nonneg[of 256, OF palette_nonneg[OF b]] unfolding setPalette_def b
    by auto
qed

lemma bleached_pixels:
  assumes tex: "\<And>uv. case tex uv of (r, g, b, a) \<Rightarrow> 0 \<le> r \<and> 0 \<le> g \<and> 0 \<le> b"
  shows "main (set_uniforms bleached_view tex 256 (1, 2) (0, 0)) (1 / 2, 1 / 2) = Some interior_color"
    and "main (set_uniforms bleached_view tex 256 (1, 2) (0, 0)) (1 / 2, 3 / 2) = Some (1, 1, 1, 1)"
proof -
  let ?u = "set_uniforms bleached_view tex 256 (1, 2) (0, 0)"
  have f: "u_maxIter ?u = 200" "u_type ?u = 0" "u_bailout ?u = 4" "u_power ?u = 2"
    "u_palette ?u = tex" "u_scaleMode ?u = 0" "u_adjust ?u = (1, 1, 1, 0)" "u_interiorSolid ?u = 1"
    "u_edgeGlow ?u = 2 / 10"
    by (simp_all add: set_uniforms_def bleached_view_def defaults_def type_code_def)
  have p0: "pixelToComplex ?u (1 / 2, 1 / 2) = Some (0, 0)"
    by (simp add: pixelToComplex_def set_uniforms_def bleached_view_def defaults_def fdiv_def)
  have p1: "pixelToComplex ?u (1 / 2, 3 / 2) = Some (0, 8)"
    by (simp add: pixelToComplex_def set_uniforms_def bleached_view_def defaults_def fdiv_def)
  have i0: "iterate ?u (0, 0) = (200, (0, 0))" using iterate_origin[of ?u] by (simp add: f)
  have bl: "bailed ?u (0, 8)" by (simp add: bailed_def dot2_def f)
  have i1: "iterate ?u (0, 8) = (0, (0, 8))" using iterate_far[of ?u "(0, 8)"] bl by (simp add: f)
  have sm: "smooth ?u 0 (0, 8) \<noteq> None"
    using smooth_escaped[OF bl, of 0] by simp
  have sh: "shade ?u t nu = Some (1, 1, 1, 1)" for t nu
    using tex by (intro shade_bleached) (simp_all add: f)
  show "main ?u (1 / 2, 1 / 2) = Some interior_color"
    by (simp add: main_def p0 escape_time_def i0 f)
  show "main ?u (1 / 2, 3 / 2) = Some (1, 1, 1, 1)"
    using sm by (auto simp add: main_def p1 escape_time_def i1 f sh)
qed

lemma upt_small: "[0..<1] = [0]" "[0..<2] = [0, 1]"
  by (simp_all add: upt_rec)

lemma to_rgba8_values:
  "to_rgba8 interior_color = (5, 3, 13, 255)" "to_rgba8 (1, 1, 1, 1) = (255, 255, 255, 255)"
  by (simp_all add: to_rgba8_def to_byte_def interior_color_def clamp_def)

lemma bleached_tiles:
  assumes tex: "\<And>uv. case tex uv of (r, g, b, a) \<Rightarrow> 0 \<le> r \<and> 0 \<le> g \<and> 0 \<le> b"
  shows "drawArrays (set_uniforms bleached_view tex 256 (1, 2) (0, 0)) 1 1 = [[Some (5, 3, 13, 255)]]"
    and "drawArrays (set_uniforms bleached_view tex 256 (1, 2) (0, 1)) 1 1 = [[Some (255, 255, 255, 255)]]"
    and "drawArrays (set_uniforms bleached_view tex 256 (1, 2) (0, 0)) 1 2 =
           [[Some (255, 255, 255, 255)], [Some (5, 3, 13, 255)]]"
proof -
  note px = bleached_pixels[of tex, OF tex]
  have o: "main (set_uniforms bleached_view tex 256 (1, 2) (0, 1)) (1 / 2, 1 / 2) = Some (1, 1, 1, 1)"
    using main_tile_offset[of bleached_view tex 256 "(1, 2)" 0 1 "1 / 2" "1 / 2"] px(2)
    by simp
  show "drawArrays (set_uniforms bleached_view tex 256 (1, 2) (0, 0)) 1 1 = [[Some (5, 3, 13, 255)]]"
    by (simp add: drawArrays_def upt_small px to_rgba8_values)
  show "drawArrays (set_uniforms bleached_view tex 256 (1, 2) (0, 1)) 1 1 = [[Some (255, 255, 255, 255)]]"
    by (simp add: drawArrays_def upt_small o to_rgba8_values)
  show "drawArrays (set_uniforms bleached_view tex 256 (1, 2) (0, 0)) 1 2 =
     [[Some (255, 255, 255, 255)], [Some (5, 3, 13, 255)]]"
    by (simp add: drawArrays_def upt_small px to_rgba8_values)
qed

text \<open>
  C1. The claim: an export in tiles and an export in one tile that covers the canvas
  give the same raster. The shader adds \<^verbatim>\<open>u_tileOffset\<close> to \<^verbatim>\<open>gl_FragCoord\<close>, which counts
  rows from the bottom of the tile, while \<^verbatim>\<open>drawImage\<close> places the tile at the same offset
  counted from the top of the output. For a canvas of 1 by 2 pixels that shows the
  interior point \<open>0\<close> below the escaping point \<open>8 i\<close>, with the default palette and the
  adjustments that turn every palette colour white, the export in one tile has the white
  pixel on top; the export in two tiles of size 1 has the two pixels exchanged.
\<close>

theorem tile_rows_in_reverse_order:
  "export_of_state bleached_view (column_opts 1) =
     Inr (Resolved [[Some (5, 3, 13, 255)], [Some (255, 255, 255, 255)]]) \<and>
   export_of_state bleached_view (column_opts 2) =
     Inr (Resolved [[Some (255, 255, 255, 255)], [Some (5, 3, 13, 255)]]) \<and>
   export_of_state bleached_view (column_opts 1) \<noteq> export_of_state bleached_view (column_opts 2)"
proof -
  obtain data where s: "setPalette (st_palette bleached_view) =
      Inr \<lparr>r_paletteTex = texture data 256, r_paletteSize = 256\<rparr>"
    and tex: "\<And>uv. case texture data 256 uv of (r, g, b, a) \<Rightarrow> 0 \<le> r \<and> 0 \<le> g \<and> 0 \<le> b"
    using setPalette_default by blast
  note tiles = bleached_tiles[of "texture data 256", OF tex, unfolded One_nat_def]
  have o1: "tile_order (ceil_div (Suc 0) (Suc 0)) (ceil_div 2 (Suc 0)) = [(0, 0), (0, 1)]"
    by (simp add: tile_order_def ceil_div_def upt_small)
  have o2: "tile_order (ceil_div (Suc 0) 2) (ceil_div 2 2) = [(0, 0)]"
    by (simp add: tile_order_def ceil_div_def upt_small)
  have a: "export_of_state bleached_view (column_opts 1) =
     Inr (Resolved [[Some (5, 3, 13, 255)], [Some (255, 255, 255, 255)]])"
    by (simp add: export_of_state_def s exportTiled_def column_opts_def o1 aborted_def Let_def
        tiles drawImage_def blank_def upt_small)
  have b: "export_of_state bleached_view (column_opts 2) =
     Inr (Resolved [[Some (255, 255, 255, 255)], [Some (5, 3, 13, 255)]])"
    by (simp add: export_of_state_def s exportTiled_def column_opts_def o2 aborted_def Let_def
        tiles drawImage_def blank_def upt_small)
  show ?thesis using a b by simp
qed


lemma tile_loop_completes:
  "opt_abort_at opts = None \<Longrightarrow> \<exists>cnv. tile_loop r state opts tile ts n off = Resolved cnv"
proof (induction ts arbitrary: n off)
  case Nil
  then show ?case by simp
next
  case (Cons t ts)
  obtain tx ty where t: "t = (tx, ty)" by (cases t)
  show ?case using Cons by (simp add: t aborted_def Let_def)
qed


lemma export_completes:
  "opt_abort_at opts = None \<Longrightarrow> opt_tile opts \<noteq> Some 0 \<Longrightarrow>
   \<exists>cnv. exportTiled r state opts = Resolved cnv"
  using tile_loop_completes[of opts r state]
  by (cases "opt_tile opts") (auto simp add: exportTiled_def Let_def)



end
